theory Spec2Isabelle
  imports Complex_Main
begin

section \<open>Phaser.Animation: the playback state machine\<close>

text \<open>
  A shallow embedding of \<^verbatim>\<open>TS Source/animation/Animation.ts\<close>. The class is a
  record, each method a function from the object's state to a result, and a
  \<^verbatim>\<open>TypeError\<close> raised by reading a property of \<^verbatim>\<open>null\<close> is the left
  injection of a sum. An uncaught exception ends the call: the object is not
  followed further.
\<close>

subsection \<open>Numbers\<close>

text \<open>
  The timing values are JavaScript numbers. They are modelled as exact reals
  extended by the two infinities and \<^verbatim>\<open>NaN\<close>, so that \<^verbatim>\<open>1000 / 0\<close> and
  a comparison with \<^verbatim>\<open>NaN\<close> behave as in the language. Rounding and the sign
  of zero are not modelled (a zero divisor is taken as \<^verbatim>\<open>+0\<close>).
\<close>

datatype number = NaN | NegInf | Fin real | PosInf

text \<open>\<^verbatim>\<open>a + b\<close>\<close>

fun num_add :: "number \<Rightarrow> number \<Rightarrow> number" where
  "num_add NaN _ = NaN"
| "num_add _ NaN = NaN"
| "num_add PosInf NegInf = NaN"
| "num_add NegInf PosInf = NaN"
| "num_add PosInf _ = PosInf"
| "num_add _ PosInf = PosInf"
| "num_add NegInf _ = NegInf"
| "num_add _ NegInf = NegInf"
| "num_add (Fin x) (Fin y) = Fin (x + y)"

text \<open>\<^verbatim>\<open>a / b\<close>\<close>

fun num_div :: "number \<Rightarrow> number \<Rightarrow> number" where
  "num_div NaN _ = NaN"
| "num_div _ NaN = NaN"
| "num_div (Fin x) (Fin y) =
     (if y = 0 then (if x = 0 then NaN else if 0 < x then PosInf else NegInf)
      else Fin (x / y))"
| "num_div (Fin x) _ = Fin 0"
| "num_div PosInf (Fin y) = (if 0 \<le> y then PosInf else NegInf)"
| "num_div NegInf (Fin y) = (if 0 \<le> y then NegInf else PosInf)"
| "num_div _ _ = NaN"

text \<open>\<^verbatim>\<open>a >= b\<close>: false as soon as one side is \<^verbatim>\<open>NaN\<close>.\<close>

fun num_ge :: "number \<Rightarrow> number \<Rightarrow> bool" where
  "num_ge NaN _ = False"
| "num_ge _ NaN = False"
| "num_ge PosInf _ = True"
| "num_ge _ NegInf = True"
| "num_ge (Fin x) (Fin y) = (y \<le> x)"
| "num_ge _ _ = False"

text \<open>\<^verbatim>\<open>a < b\<close>: false as soon as one side is \<^verbatim>\<open>NaN\<close>.\<close>

fun num_lt :: "number \<Rightarrow> number \<Rightarrow> bool" where
  "num_lt NaN _ = False"
| "num_lt _ NaN = False"
| "num_lt PosInf _ = False"
| "num_lt _ NegInf = False"
| "num_lt (Fin x) (Fin y) = (x < y)"
| "num_lt _ _ = True"

text \<open>
  A field that was declared but never assigned holds \<^verbatim>\<open>undefined\<close>
  (\<open>None\<close>), which a comparison converts to \<^verbatim>\<open>NaN\<close>.
\<close>

definition to_number :: "number option \<Rightarrow> number" where
  "to_number v = (case v of None \<Rightarrow> NaN | Some n \<Rightarrow> n)"

subsection \<open>The collaborators\<close>

text \<open>
  Modelled from the spec: the classes \<^verbatim>\<open>Frame\<close>, \<^verbatim>\<open>FrameData\<close>,
  \<^verbatim>\<open>Sprite\<close>, \<^verbatim>\<open>Signal\<close>, \<^verbatim>\<open>Game\<close> and \<^verbatim>\<open>Time\<close> are declared in
  \<^verbatim>\<open>_definitions.ts\<close>, which is not part of the source at hand. Only the
  members that \<^verbatim>\<open>Animation.ts\<close> touches are kept.

  A frame descriptor carries its own index in the atlas and its size.
\<close>

record Frame =
  index :: int
  width :: int
  height :: int

text \<open>
  Modelled from the spec: \<^verbatim>\<open>FrameData.getFrame(key)\<close> is a read-only lookup
  that gives the frame descriptor or \<^verbatim>\<open>null\<close> (\<open>None\<close>). The table is a
  parameter of the model. Its argument is \<open>Some k\<close> for a number and
  \<open>None\<close> for \<^verbatim>\<open>undefined\<close>, which is what reading an array out of range
  hands to it.
\<close>

type_synonym FrameData = "int option \<Rightarrow> Frame option"

text \<open>
  Modelled from the spec: the parent sprite exposes the size of its texture
  (\<^verbatim>\<open>texture.width\<close>, \<^verbatim>\<open>texture.height\<close>) and three signals
  (\<^verbatim>\<open>events.onAnimationStart\<close>, \<^verbatim>\<open>events.onAnimationLoop\<close>,
  \<^verbatim>\<open>events.onAnimationComplete\<close>). A signal is the list of the dispatches it
  has received, oldest first; a dispatch \<^verbatim>\<open>dispatch(this._parent, this)\<close> is
  recorded on the parent's signal by the name of the animation that sent it.
\<close>

record Sprite =
  texture_width :: int
  texture_height :: int
  onAnimationStart :: "string list"
  onAnimationLoop :: "string list"
  onAnimationComplete :: "string list"

text \<open>Modelled from the spec: the clock, read as \<^verbatim>\<open>game.time.now\<close>.\<close>

record Time =
  now :: number

record Game =
  time :: Time

subsection \<open>The class\<close>

text \<open>
  The fields of \<^verbatim>\<open>Animation\<close>, without the leading underscore of the private
  ones. A reference that \<^verbatim>\<open>destroy\<close> sets to \<^verbatim>\<open>null\<close> is an option. The
  objects behind \<^verbatim>\<open>game\<close> and \<^verbatim>\<open>_parent\<close> are kept in the record, so that a write
  through the reference is an update of the field.
\<close>

record Animation =
  game :: "Game option"
  parent :: "Sprite option"
  frames :: "int list option"
  frameData :: "FrameData option"
  frameIndex :: int
  timeLastFrame :: "number option"
  timeNextFrame :: "number option"
  name :: string
  currentFrame :: "Frame option"
  isFinished :: bool
  isPlaying :: bool
  looped :: bool
  delay :: number

datatype error = TypeError

text \<open>\<^verbatim>\<open>xs[i]\<close> on an array: \<^verbatim>\<open>undefined\<close> out of range.\<close>

definition array_get :: "int list \<Rightarrow> int \<Rightarrow> int option" where
  "array_get xs i = (if 0 \<le> i \<and> i < int (length xs) then Some (xs ! nat i) else None)"

text \<open>
  The statement
  \<^verbatim>\<open>this.currentFrame = this._frameData.getFrame(this._frames[this._frameIndex])\<close>,
  which the constructor, \<^verbatim>\<open>play\<close>, \<^verbatim>\<open>restart\<close> and \<^verbatim>\<open>update\<close> all contain.
\<close>

definition resolveFrame :: "Animation \<Rightarrow> error + Animation" where
  "resolveFrame a =
     (case frameData a of
        None \<Rightarrow> Inl TypeError
      | Some fd \<Rightarrow>
          (case frames a of
             None \<Rightarrow> Inl TypeError
           | Some fs \<Rightarrow> Inr (a\<lparr>currentFrame := fd (array_get fs (frameIndex a))\<rparr>)))"

text \<open>
  The constructor (lines 30 to 47). The two timing fields are not assigned.
\<close>

definition new_Animation ::
  "Game \<Rightarrow> Sprite \<Rightarrow> FrameData \<Rightarrow> string \<Rightarrow> int list \<Rightarrow> number \<Rightarrow> bool \<Rightarrow> Animation" where
  "new_Animation g p fd nm fs dl lp =
     \<lparr> game = Some g, parent = Some p, frames = Some fs, frameData = Some fd,
       frameIndex = 0, timeLastFrame = None, timeNextFrame = None, name = nm,
       currentFrame = fd (array_get fs 0), isFinished = False, isPlaying = False,
       looped = lp, delay = num_div (Fin 1000) dl \<rparr>"

text \<open>\<^verbatim>\<open>get frameTotal\<close> (lines 123 to 125).\<close>

definition frameTotal :: "Animation \<Rightarrow> error + int" where
  "frameTotal a = (case frames a of None \<Rightarrow> Inl TypeError | Some fs \<Rightarrow> Inr (int (length fs)))"

text \<open>\<^verbatim>\<open>get frame\<close> (lines 127 to 138).\<close>

definition get_frame :: "Animation \<Rightarrow> int" where
  "get_frame a = (case currentFrame a of Some f \<Rightarrow> index f | None \<Rightarrow> frameIndex a)"

text \<open>\<^verbatim>\<open>set frame\<close> (lines 140 to 151).\<close>

definition set_frame :: "int \<Rightarrow> Animation \<Rightarrow> error + Animation" where
  "set_frame v a =
     (case frameData a of
        None \<Rightarrow> Inl TypeError
      | Some fd \<Rightarrow>
          (let a1 = a\<lparr>currentFrame := fd (Some v)\<rparr> in
           case currentFrame a1 of
             None \<Rightarrow> Inr a1
           | Some f \<Rightarrow>
               (case parent a1 of
                  None \<Rightarrow> Inl TypeError
                | Some p \<Rightarrow>
                    Inr (a1\<lparr>parent := Some (p\<lparr>texture_width := width f, texture_height := height f\<rparr>),
                            frameIndex := v\<rparr>))))"

text \<open>
  \<^verbatim>\<open>play\<close> (lines 158 to 185). An argument left out, or given as
  \<^verbatim>\<open>null\<close>, is \<open>None\<close>. The method returns \<^verbatim>\<open>this\<close>.
\<close>

definition play :: "number option \<Rightarrow> bool option \<Rightarrow> Animation \<Rightarrow> error + Animation" where
  "play frameRate loop a =
     (let a1 = (case frameRate of None \<Rightarrow> a | Some r \<Rightarrow> a\<lparr>delay := num_div (Fin 1000) r\<rparr>);
          a2 = (case loop of None \<Rightarrow> a1 | Some l \<Rightarrow> a1\<lparr>looped := l\<rparr>);
          a3 = a2\<lparr>isPlaying := True, isFinished := False\<rparr>
      in case game a3 of
           None \<Rightarrow> Inl TypeError
         | Some g \<Rightarrow>
             (let a4 = a3\<lparr>timeLastFrame := Some (now (time g)),
                         timeNextFrame := Some (num_add (now (time g)) (delay a3))\<rparr>;
                  a5 = a4\<lparr>frameIndex := 0\<rparr>
              in case resolveFrame a5 of
                   Inl e \<Rightarrow> Inl e
                 | Inr a6 \<Rightarrow>
                     (case parent a6 of
                        None \<Rightarrow> Inl TypeError
                      | Some p \<Rightarrow>
                          Inr (a6\<lparr>parent :=
                                    Some (p\<lparr>onAnimationStart := onAnimationStart p @ [name a6]\<rparr>)\<rparr>))))"

text \<open>\<^verbatim>\<open>restart\<close> (lines 190 to 201).\<close>

definition restart :: "Animation \<Rightarrow> error + Animation" where
  "restart a =
     (let a1 = a\<lparr>isPlaying := True, isFinished := False\<rparr>
      in case game a1 of
           None \<Rightarrow> Inl TypeError
         | Some g \<Rightarrow>
             (let a2 = a1\<lparr>timeLastFrame := Some (now (time g)),
                         timeNextFrame := Some (num_add (now (time g)) (delay a1))\<rparr>;
                  a3 = a2\<lparr>frameIndex := 0\<rparr>
              in resolveFrame a3))"

text \<open>\<^verbatim>\<open>stop\<close> (lines 206 to 211).\<close>

definition stop :: "Animation \<Rightarrow> Animation" where
  "stop a = a\<lparr>isPlaying := False, isFinished := True\<rparr>"

text \<open>\<^verbatim>\<open>onComplete\<close> (lines 267 to 274).\<close>

definition onComplete :: "Animation \<Rightarrow> error + Animation" where
  "onComplete a =
     (let a1 = a\<lparr>isPlaying := False, isFinished := True\<rparr>
      in case parent a1 of
           None \<Rightarrow> Inl TypeError
         | Some p \<Rightarrow>
             Inr (a1\<lparr>parent :=
                       Some (p\<lparr>onAnimationComplete := onAnimationComplete p @ [name a1]\<rparr>)\<rparr>))"

text \<open>
  \<^verbatim>\<open>update\<close> (lines 216 to 248). The \<^verbatim>\<open>&&\<close> of the guard reads the clock
  only when \<^verbatim>\<open>isPlaying\<close> holds. The result is the returned boolean and the
  object.
\<close>

definition update :: "Animation \<Rightarrow> error + (bool \<times> Animation)" where
  "update a =
     (if \<not> isPlaying a then Inr (False, a)
      else case game a of
        None \<Rightarrow> Inl TypeError
      | Some g \<Rightarrow>
          if \<not> num_ge (now (time g)) (to_number (timeNextFrame a)) then Inr (False, a)
          else
            (let a1 = a\<lparr>frameIndex := frameIndex a + 1\<rparr>
             in case frames a1 of
                  None \<Rightarrow> Inl TypeError
                | Some fs \<Rightarrow>
                    (case (if frameIndex a1 = int (length fs)
                           then (if looped a1
                                 then (case resolveFrame (a1\<lparr>frameIndex := 0\<rparr>) of
                                         Inl e \<Rightarrow> Inl e
                                       | Inr a2 \<Rightarrow>
                                           (case parent a2 of
                                              None \<Rightarrow> Inl TypeError
                                            | Some p \<Rightarrow>
                                                Inr (a2\<lparr>parent :=
                                                          Some (p\<lparr>onAnimationLoop :=
                                                                     onAnimationLoop p @ [name a2]\<rparr>)\<rparr>)))
                                 else onComplete a1)
                           else resolveFrame a1) of
                       Inl e \<Rightarrow> Inl e
                     | Inr a3 \<Rightarrow>
                         Inr (True, a3\<lparr>timeLastFrame := Some (now (time g)),
                                       timeNextFrame := Some (num_add (now (time g)) (delay a3))\<rparr>))))"

text \<open>\<^verbatim>\<open>destroy\<close> (lines 253 to 262).\<close>

definition destroy :: "Animation \<Rightarrow> Animation" where
  "destroy a =
     a\<lparr>game := None, parent := None, frames := None, frameData := None,
       currentFrame := None, isPlaying := False\<rparr>"

text \<open>
  The game loop owns the clock: between two calls of the animation it moves
  \<^verbatim>\<open>game.time.now\<close>. This is the driver's side of the shared \<^verbatim>\<open>game\<close>
  object, not a method of the class.
\<close>

definition clock_at :: "number \<Rightarrow> Animation \<Rightarrow> Animation" where
  "clock_at t a = a\<lparr>game := map_option (\<lambda>g. g\<lparr>time := (time g)\<lparr>now := t\<rparr>\<rparr>) (game a)\<rparr>"

subsection \<open>Sample objects\<close>

text \<open>
  A frame table with the keys 0, 1 and 7, a parent whose texture is 0 by 0 and
  whose signals have received nothing, a clock at 0 and an animation named
  \<^verbatim>\<open>walk\<close> at 10 frames per second, so that its delay is 100.
\<close>

definition demo_table :: FrameData where
  "demo_table k =
     (if k = Some 0 then Some \<lparr>index = 0, width = 32, height = 48\<rparr>
      else if k = Some 1 then Some \<lparr>index = 1, width = 64, height = 48\<rparr>
      else if k = Some 7 then Some \<lparr>index = 7, width = 16, height = 24\<rparr>
      else None)"

definition demo_sprite :: Sprite where
  "demo_sprite = \<lparr>texture_width = 0, texture_height = 0, onAnimationStart = [],
                   onAnimationLoop = [], onAnimationComplete = []\<rparr>"

definition demo_game :: Game where
  "demo_game = \<lparr>time = \<lparr>now = Fin 0\<rparr>\<rparr>"

definition demo :: "int list \<Rightarrow> bool \<Rightarrow> Animation" where
  "demo fs lp = new_Animation demo_game demo_sprite demo_table ''walk'' fs (Fin 10) lp"

text \<open>The state \<^verbatim>\<open>play()\<close> leaves \<open>demo fs lp\<close> in, with the clock at 0.\<close>

definition demo_playing :: "int list \<Rightarrow> bool \<Rightarrow> Animation" where
  "demo_playing fs lp =
     (demo fs lp)\<lparr>isPlaying := True, timeLastFrame := Some (Fin 0),
                  timeNextFrame := Some (Fin 100),
                  parent := Some (demo_sprite\<lparr>onAnimationStart := [''walk'']\<rparr>)\<rparr>"

subsection \<open>A client of the class\<close>

text \<open>
  A client calls the methods one after the other, and the game loop moves the
  clock in between (\<open>Tick\<close>). A call that raises ends the run. The boolean
  that \<^verbatim>\<open>update()\<close> returns is dropped here.
\<close>

datatype call = Play "number option" "bool option" | Restart | Stop | Update | SetFrame int
  | Tick number

fun perform :: "call \<Rightarrow> Animation \<Rightarrow> error + Animation" where
  "perform (Play frameRate loop) a = play frameRate loop a"
| "perform Restart a = restart a"
| "perform Stop a = Inr (stop a)"
| "perform Update a = (case update a of Inl e \<Rightarrow> Inl e | Inr (r, a') \<Rightarrow> Inr a')"
| "perform (SetFrame v) a = set_frame v a"
| "perform (Tick t) a = Inr (clock_at t a)"

fun run :: "call list \<Rightarrow> Animation \<Rightarrow> error + Animation" where
  "run [] a = Inr a"
| "run (c # cs) a = (case perform c a of Inl e \<Rightarrow> Inl e | Inr a' \<Rightarrow> run cs a')"

text \<open>The calls of the frame setter.\<close>

fun is_seek :: "call \<Rightarrow> bool" where
  "is_seek (SetFrame v) = True"
| "is_seek _ = False"

text \<open>
  The cursor is a position of the sequence \<open>fs\<close>, and the cursor is one past
  the last position of \<open>fs\<close> on an instance that is finished and not playing.
\<close>

definition in_range :: "int list \<Rightarrow> Animation \<Rightarrow> bool" where
  "in_range fs a = (frames a = Some fs \<and> 0 \<le> frameIndex a \<and> frameIndex a < int (length fs))"

definition past_end :: "int list \<Rightarrow> Animation \<Rightarrow> bool" where
  "past_end fs a =
     (frames a = Some fs \<and> frameIndex a = int (length fs) \<and> \<not> isPlaying a \<and> isFinished a)"

text \<open>
  The calls that keep the cursor among the positions of \<open>fs\<close>: every call
  but a frame setter whose key the table \<open>fd\<close> holds and that is not a
  position of \<open>fs\<close>.
\<close>

fun seek_ok :: "FrameData \<Rightarrow> int list \<Rightarrow> call \<Rightarrow> bool" where
  "seek_ok fd fs (SetFrame v) = (fd (Some v) = None \<or> (0 \<le> v \<and> v < int (length fs)))"
| "seek_ok fd fs _ = True"

text \<open>
  \<^verbatim>\<open>currentFrame\<close> is the frame that the table \<open>fd\<close> gives for the key at the
  cursor; on a finished instance whose cursor is one past the last position,
  for the last key.
\<close>

definition shows_cursor :: "FrameData \<Rightarrow> int list \<Rightarrow> Animation \<Rightarrow> bool" where
  "shows_cursor fd fs a =
     (frameData a = Some fd \<and>
      ((in_range fs a \<and> currentFrame a = fd (array_get fs (frameIndex a))) \<or>
       (past_end fs a \<and> currentFrame a = fd (array_get fs (int (length fs) - 1)))))"

section \<open>Properties\<close>

subsection \<open>Auxiliary facts\<close>

lemmas demo_defs = demo_def new_Animation_def demo_game_def demo_sprite_def demo_table_def
  array_get_def to_number_def clock_at_def

lemma num_lt_not_ge: "num_lt x y \<Longrightarrow> \<not> num_ge x y"
  by (cases x; cases y) auto

lemma update_idle: "\<not> isPlaying a \<Longrightarrow> update a = Inr (False, a)"
  by (simp add: update_def)

lemma update_early:
  "isPlaying a \<Longrightarrow> game a = Some g \<Longrightarrow> \<not> num_ge (now (time g)) (to_number (timeNextFrame a))
   \<Longrightarrow> update a = Inr (False, a)"
  by (simp add: update_def)

lemma update_advance:
  assumes "isPlaying a" and "game a = Some g"
    and "num_ge (now (time g)) (to_number (timeNextFrame a))"
    and "frames a = Some fs" and "frameData a = Some fd"
    and "frameIndex a + 1 \<noteq> int (length fs)"
  shows "update a =
    Inr (True, a\<lparr>frameIndex := frameIndex a + 1,
                  currentFrame := fd (array_get fs (frameIndex a + 1)),
                  timeLastFrame := Some (now (time g)),
                  timeNextFrame := Some (num_add (now (time g)) (delay a))\<rparr>)"
  using assms by (simp add: update_def resolveFrame_def Let_def)

lemma update_loop:
  assumes "isPlaying a" and "game a = Some g"
    and "num_ge (now (time g)) (to_number (timeNextFrame a))"
    and "frames a = Some fs" and "frameData a = Some fd" and "parent a = Some p"
    and "frameIndex a + 1 = int (length fs)" and "looped a"
  shows "update a =
    Inr (True, a\<lparr>frameIndex := 0,
                  currentFrame := fd (array_get fs 0),
                  parent := Some (p\<lparr>onAnimationLoop := onAnimationLoop p @ [name a]\<rparr>),
                  timeLastFrame := Some (now (time g)),
                  timeNextFrame := Some (num_add (now (time g)) (delay a))\<rparr>)"
  using assms by (simp add: update_def resolveFrame_def Let_def)

lemma update_complete:
  assumes "isPlaying a" and "game a = Some g"
    and "num_ge (now (time g)) (to_number (timeNextFrame a))"
    and "frames a = Some fs" and "parent a = Some p"
    and "frameIndex a + 1 = int (length fs)" and "\<not> looped a"
  shows "update a =
    Inr (True, a\<lparr>frameIndex := frameIndex a + 1,
                  isPlaying := False, isFinished := True,
                  parent := Some (p\<lparr>onAnimationComplete := onAnimationComplete p @ [name a]\<rparr>),
                  timeLastFrame := Some (now (time g)),
                  timeNextFrame := Some (num_add (now (time g)) (delay a))\<rparr>)"
  using assms by (simp add: update_def onComplete_def Let_def)

lemma restart_live:
  assumes "game a = Some g" and "frames a = Some fs" and "frameData a = Some fd"
  shows "restart a =
    Inr (a\<lparr>isPlaying := True, isFinished := False,
            timeLastFrame := Some (now (time g)),
            timeNextFrame := Some (num_add (now (time g)) (delay a)),
            frameIndex := 0,
            currentFrame := fd (array_get fs 0)\<rparr>)"
  using assms by (simp add: restart_def resolveFrame_def Let_def)

lemma play_live:
  assumes "game a = Some g" and "frames a = Some fs" and "frameData a = Some fd"
    and "parent a = Some p"
  shows "play rate loop a =
    Inr (a\<lparr>delay := (case rate of None \<Rightarrow> delay a | Some r \<Rightarrow> num_div (Fin 1000) r),
            looped := (case loop of None \<Rightarrow> looped a | Some l \<Rightarrow> l),
            isPlaying := True, isFinished := False,
            timeLastFrame := Some (now (time g)),
            timeNextFrame := Some (num_add (now (time g))
               (case rate of None \<Rightarrow> delay a | Some r \<Rightarrow> num_div (Fin 1000) r)),
            frameIndex := 0,
            currentFrame := fd (array_get fs 0),
            parent := Some (p\<lparr>onAnimationStart := onAnimationStart p @ [name a]\<rparr>)\<rparr>)"
  using assms by (simp add: play_def resolveFrame_def Let_def split: option.splits)

lemma play_Inr_live:
  "play rate loop a = Inr a' \<Longrightarrow>
     (\<exists>g fs fd p. game a = Some g \<and> frames a = Some fs \<and> frameData a = Some fd \<and> parent a = Some p)"
  by (auto simp add: play_def resolveFrame_def Let_def split: option.splits sum.splits)

lemma update_cases [consumes 1, case_names noop advance loop complete]:
  assumes upd: "update a = Inr (r, a')"
  obtains
    "\<not> r" and "a' = a"
  | g fs fd where "r" and "isPlaying a" and "game a = Some g"
      and "num_ge (now (time g)) (to_number (timeNextFrame a))"
      and "frames a = Some fs" and "frameData a = Some fd"
      and "frameIndex a + 1 \<noteq> int (length fs)"
      and "a' = a\<lparr>frameIndex := frameIndex a + 1,
                  currentFrame := fd (array_get fs (frameIndex a + 1)),
                  timeLastFrame := Some (now (time g)),
                  timeNextFrame := Some (num_add (now (time g)) (delay a))\<rparr>"
  | g fs fd p where "r" and "isPlaying a" and "game a = Some g"
      and "num_ge (now (time g)) (to_number (timeNextFrame a))"
      and "frames a = Some fs" and "frameData a = Some fd" and "parent a = Some p"
      and "frameIndex a + 1 = int (length fs)" and "looped a"
      and "a' = a\<lparr>frameIndex := 0,
                  currentFrame := fd (array_get fs 0),
                  parent := Some (p\<lparr>onAnimationLoop := onAnimationLoop p @ [name a]\<rparr>),
                  timeLastFrame := Some (now (time g)),
                  timeNextFrame := Some (num_add (now (time g)) (delay a))\<rparr>"
  | g fs p where "r" and "isPlaying a" and "game a = Some g"
      and "num_ge (now (time g)) (to_number (timeNextFrame a))"
      and "frames a = Some fs" and "parent a = Some p"
      and "frameIndex a + 1 = int (length fs)" and "\<not> looped a"
      and "a' = a\<lparr>frameIndex := frameIndex a + 1,
                  isPlaying := False, isFinished := True,
                  parent := Some (p\<lparr>onAnimationComplete := onAnimationComplete p @ [name a]\<rparr>),
                  timeLastFrame := Some (now (time g)),
                  timeNextFrame := Some (num_add (now (time g)) (delay a))\<rparr>"
proof (cases "isPlaying a")
  case False
  with upd have "\<not> r" and "a' = a" by (simp_all add: update_idle)
  then show ?thesis by (rule that(1))
next
  case pl: True
  from upd pl obtain g where g: "game a = Some g"
    by (cases "game a") (simp_all add: update_def)
  show ?thesis
  proof (cases "num_ge (now (time g)) (to_number (timeNextFrame a))")
    case False
    with upd pl g have "\<not> r" and "a' = a" by (simp_all add: update_early)
    then show ?thesis by (rule that(1))
  next
    case ge: True
    from upd pl g ge obtain fs where fs: "frames a = Some fs"
      by (cases "frames a") (simp_all add: update_def)
    show ?thesis
    proof (cases "frameIndex a + 1 = int (length fs)")
      case mid: False
      from upd pl g ge fs mid obtain fd where fd: "frameData a = Some fd"
        by (cases "frameData a") (simp_all add: update_def resolveFrame_def)
      from upd have res: "r" "a' = a\<lparr>frameIndex := frameIndex a + 1,
                  currentFrame := fd (array_get fs (frameIndex a + 1)),
                  timeLastFrame := Some (now (time g)),
                  timeNextFrame := Some (num_add (now (time g)) (delay a))\<rparr>"
        by (simp_all add: update_advance [OF pl g ge fs fd mid])
      from res(1) pl g ge fs fd mid res(2) show ?thesis by (rule that(2))
    next
      case last: True
      show ?thesis
      proof (cases "looped a")
        case lp: True
        from upd pl g ge fs last lp obtain fd where fd: "frameData a = Some fd"
          by (cases "frameData a") (simp_all add: update_def resolveFrame_def)
        from upd pl g ge fs last lp fd obtain p where p: "parent a = Some p"
          by (cases "parent a") (simp_all add: update_def resolveFrame_def)
        from upd have res: "r" "a' = a\<lparr>frameIndex := 0,
                  currentFrame := fd (array_get fs 0),
                  parent := Some (p\<lparr>onAnimationLoop := onAnimationLoop p @ [name a]\<rparr>),
                  timeLastFrame := Some (now (time g)),
                  timeNextFrame := Some (num_add (now (time g)) (delay a))\<rparr>"
          by (simp_all add: update_loop [OF pl g ge fs fd p last lp])
        from res(1) pl g ge fs fd p last lp res(2) show ?thesis by (rule that(3))
      next
        case nl: False
        from upd pl g ge fs last nl obtain p where p: "parent a = Some p"
          by (cases "parent a") (simp_all add: update_def onComplete_def)
        from upd have res: "r" "a' = a\<lparr>frameIndex := frameIndex a + 1,
                  isPlaying := False, isFinished := True,
                  parent := Some (p\<lparr>onAnimationComplete := onAnimationComplete p @ [name a]\<rparr>),
                  timeLastFrame := Some (now (time g)),
                  timeNextFrame := Some (num_add (now (time g)) (delay a))\<rparr>"
          by (simp_all add: update_complete [OF pl g ge fs p last nl])
        from res(1) pl g ge fs p last nl res(2) show ?thesis by (rule that(4))
      qed
    qed
  qed
qed

lemma play_demo: "play None None (demo fs lp) = Inr (demo_playing fs lp)"
  by (simp add: demo_playing_def demo_defs play_def resolveFrame_def Let_def)

lemma restart_Inr_live:
  "restart a = Inr a' \<Longrightarrow>
     (\<exists>g fs fd. game a = Some g \<and> frames a = Some fs \<and> frameData a = Some fd)"
  by (auto simp add: restart_def resolveFrame_def Let_def split: option.splits)

lemma new_in_range: "fs \<noteq> [] \<Longrightarrow> in_range fs (new_Animation g p fd nm fs dl lp)"
  by (simp add: in_range_def new_Animation_def)

lemma play_in_range:
  assumes "play frameRate loop a = Inr a'" and "frames a = Some fs" and "fs \<noteq> []"
  shows "in_range fs a'"
proof -
  from play_Inr_live [OF assms(1)] assms(2) obtain g fd p where
    live: "game a = Some g" "frames a = Some fs" "frameData a = Some fd" "parent a = Some p"
    by auto
  from assms(1) assms(3) show ?thesis
    by (auto simp add: play_live [OF live] in_range_def live(2))
qed

lemma restart_in_range:
  assumes "restart a = Inr a'" and "frames a = Some fs" and "fs \<noteq> []"
  shows "in_range fs a'"
proof -
  from restart_Inr_live [OF assms(1)] assms(2) obtain g fd where
    live: "game a = Some g" "frames a = Some fs" "frameData a = Some fd"
    by auto
  from assms(1) assms(3) show ?thesis
    by (auto simp add: restart_live [OF live] in_range_def live(2))
qed

lemma stop_keeps:
  "in_range fs a \<Longrightarrow> in_range fs (stop a)"
  "past_end fs a \<Longrightarrow> past_end fs (stop a)"
  by (simp_all add: in_range_def past_end_def stop_def)

lemma clock_at_keeps:
  "in_range fs a \<Longrightarrow> in_range fs (clock_at t a)"
  "past_end fs a \<Longrightarrow> past_end fs (clock_at t a)"
  by (simp_all add: in_range_def past_end_def clock_at_def)

lemma update_in_range:
  assumes "update a = Inr (r, a')" and "in_range fs a"
  shows "in_range fs a' \<or>
         (past_end fs a' \<and> r \<and> \<not> looped a \<and> frameIndex a + 1 = int (length fs))"
  using assms by (cases rule: update_cases) (auto simp add: in_range_def past_end_def)

lemma update_past_end:
  assumes "update a = Inr (r, a')" and "past_end fs a"
  shows "a' = a"
  using assms by (simp add: past_end_def update_idle)

lemma perform_keeps:
  assumes "perform c a = Inr a'" and "\<not> is_seek c" and "fs \<noteq> []"
    and "in_range fs a \<or> past_end fs a"
  shows "in_range fs a' \<or> past_end fs a'"
proof -
  from assms(4) have fs: "frames a = Some fs"
    by (auto simp add: in_range_def past_end_def)
  show ?thesis
  proof (cases c)
  case (Play frameRate loop)
  with assms(1) have "play frameRate loop a = Inr a'" by simp
  from play_in_range [OF this fs assms(3)] show ?thesis ..
next
  case Restart
  with assms(1) have "restart a = Inr a'" by simp
  from restart_in_range [OF this fs assms(3)] show ?thesis ..
next
  case Stop
  with assms show ?thesis by (auto dest: stop_keeps)
next
  case Update
  with assms(1) obtain r where upd: "update a = Inr (r, a')"
    by (auto split: sum.splits)
  from assms(4) show ?thesis
  proof
    assume "in_range fs a"
    with update_in_range [OF upd] show ?thesis by blast
  next
    assume "past_end fs a"
    with update_past_end [OF upd] show ?thesis by simp
  qed
next
  case (SetFrame v)
  with assms(2) show ?thesis by simp
next
  case (Tick t)
  with assms show ?thesis by (auto dest: clock_at_keeps)
qed
qed

lemma perform_in_range:
  assumes "perform c b = Inr b'" and "\<not> is_seek c" and "fs \<noteq> []" and "in_range fs b"
  shows "in_range fs b' \<or>
         (c = Update \<and> \<not> looped b \<and> frameIndex b + 1 = int (length fs) \<and> past_end fs b')"
proof -
  from assms(4) have fs: "frames b = Some fs"
    by (simp add: in_range_def)
  show ?thesis
  proof (cases c)
    case (Play frameRate loop)
    with assms(1) have "play frameRate loop b = Inr b'" by simp
    from play_in_range [OF this fs assms(3)] show ?thesis ..
  next
    case Restart
    with assms(1) have "restart b = Inr b'" by simp
    from restart_in_range [OF this fs assms(3)] show ?thesis ..
  next
    case Stop
    with assms(1) assms(4) show ?thesis by (auto dest: stop_keeps)
  next
    case Update
    with assms(1) obtain r where upd: "update b = Inr (r, b')"
      by (auto split: sum.splits)
    from update_in_range [OF upd assms(4)] Update show ?thesis by blast
  next
    case (SetFrame v)
    with assms(2) show ?thesis by simp
  next
    case (Tick t)
    with assms(1) assms(4) show ?thesis by (auto dest: clock_at_keeps)
  qed
qed

lemma set_frame_cursor:
  assumes "set_frame v b = Inr b'"
  shows "frameIndex b' = (if currentFrame b' = None then frameIndex b else v)"
proof -
  from assms obtain fd where fd: "frameData b = Some fd"
    by (cases "frameData b") (simp_all add: set_frame_def)
  show ?thesis
  proof (cases "fd (Some v)")
    case None
    with assms fd show ?thesis by (auto simp add: set_frame_def Let_def)
  next
    case (Some f)
    with assms fd obtain p where "parent b = Some p"
      by (cases "parent b") (simp_all add: set_frame_def Let_def)
    with assms fd Some show ?thesis by (auto simp add: set_frame_def Let_def)
  qed
qed

lemma set_frame_cases [consumes 1, case_names absent present]:
  assumes "set_frame v a = Inr a'"
  obtains fd where "frameData a = Some fd" and "fd (Some v) = None"
      and "a' = a\<lparr>currentFrame := None\<rparr>"
  | fd f p where "frameData a = Some fd" and "fd (Some v) = Some f" and "parent a = Some p"
      and "a' = a\<lparr>currentFrame := Some f,
                   parent := Some (p\<lparr>texture_width := width f, texture_height := height f\<rparr>),
                   frameIndex := v\<rparr>"
proof -
  from assms obtain fd where fd: "frameData a = Some fd"
    by (cases "frameData a") (simp_all add: set_frame_def)
  show ?thesis
  proof (cases "fd (Some v)")
    case None
    with assms fd have "a' = a\<lparr>currentFrame := None\<rparr>"
      by (auto simp add: set_frame_def Let_def)
    with fd None show ?thesis by (rule that(1))
  next
    case (Some f)
    with assms fd obtain p where p: "parent a = Some p"
      by (cases "parent a") (simp_all add: set_frame_def Let_def)
    with assms fd Some have "a' = a\<lparr>currentFrame := Some f,
                   parent := Some (p\<lparr>texture_width := width f, texture_height := height f\<rparr>),
                   frameIndex := v\<rparr>"
      by (auto simp add: set_frame_def Let_def)
    with fd Some p show ?thesis by (rule that(2))
  qed
qed

lemma perform_frameData:
  assumes "perform c a = Inr a'"
  shows "frameData a' = frameData a"
proof (cases c)
  case (Play frameRate loop)
  with assms have pl: "play frameRate loop a = Inr a'" by simp
  from play_Inr_live [OF pl] obtain g fs fd p where
    live: "game a = Some g" "frames a = Some fs" "frameData a = Some fd" "parent a = Some p"
    by blast
  from pl show ?thesis by (auto simp add: play_live [OF live])
next
  case Restart
  with assms have rs: "restart a = Inr a'" by simp
  from restart_Inr_live [OF rs] obtain g fs fd where
    live: "game a = Some g" "frames a = Some fs" "frameData a = Some fd"
    by blast
  from rs show ?thesis by (auto simp add: restart_live [OF live])
next
  case Stop
  with assms show ?thesis by (auto simp add: stop_def)
next
  case Update
  with assms obtain r where upd: "update a = Inr (r, a')"
    by (auto split: sum.splits)
  then show ?thesis by (cases rule: update_cases) simp_all
next
  case (SetFrame v)
  with assms have "set_frame v a = Inr a'" by simp
  then show ?thesis by (cases rule: set_frame_cases) simp_all
next
  case (Tick t)
  with assms show ?thesis by (auto simp add: clock_at_def)
qed

lemma seek_in_range:
  assumes "set_frame v a = Inr a'" and "frameData a = Some fd"
    and "fd (Some v) = None \<or> (0 \<le> v \<and> v < int (length fs))"
  shows "in_range fs a \<Longrightarrow> in_range fs a'" and "past_end fs a \<Longrightarrow> in_range fs a' \<or> past_end fs a'"
  using assms by (cases rule: set_frame_cases; auto simp add: in_range_def past_end_def)+

lemma perform_keeps_seek:
  assumes "perform c a = Inr a'" and "seek_ok fd fs c" and "fs \<noteq> []"
    and "frameData a = Some fd" and "in_range fs a \<or> past_end fs a"
  shows "in_range fs a' \<or> past_end fs a'"
proof (cases "is_seek c")
  case False
  from perform_keeps [OF assms(1) False assms(3) assms(5)] show ?thesis .
next
  case True
  then obtain v where c: "c = SetFrame v" by (cases c) simp_all
  with assms(1) have sf: "set_frame v a = Inr a'" by simp
  from assms(2) c have ok: "fd (Some v) = None \<or> (0 \<le> v \<and> v < int (length fs))" by simp
  from assms(5) seek_in_range [OF sf assms(4) ok] show ?thesis by blast
qed

lemma run_keeps_seek:
  assumes "fs \<noteq> []"
  shows "run cs a = Inr a' \<Longrightarrow> list_all (seek_ok fd fs) cs \<Longrightarrow> frameData a = Some fd \<Longrightarrow>
         in_range fs a \<or> past_end fs a \<Longrightarrow> in_range fs a' \<or> past_end fs a'"
proof (induction cs arbitrary: a)
  case Nil
  then show ?case by simp
next
  case (Cons c cs)
  from Cons.prems(1) obtain b where b: "perform c a = Inr b" and rest: "run cs b = Inr a'"
    by (auto split: sum.splits)
  from Cons.prems(2) have c: "seek_ok fd fs c" and cs: "list_all (seek_ok fd fs) cs"
    by simp_all
  from perform_frameData [OF b] Cons.prems(3) have fd: "frameData b = Some fd" by simp
  from perform_keeps_seek [OF b c assms Cons.prems(3) Cons.prems(4)]
  have "in_range fs b \<or> past_end fs b" .
  from Cons.IH [OF rest cs fd this] show ?case .
qed

lemma perform_in_range_seek:
  assumes "perform c b = Inr b'" and "seek_ok fd fs c" and "c \<noteq> Update" and "fs \<noteq> []"
    and "frameData b = Some fd" and "in_range fs b"
  shows "in_range fs b'"
proof (cases "is_seek c")
  case False
  from perform_in_range [OF assms(1) False assms(4) assms(6)] assms(3) show ?thesis by blast
next
  case True
  then obtain v where c: "c = SetFrame v" by (cases c) simp_all
  with assms(1) have sf: "set_frame v b = Inr b'" by simp
  from assms(2) c have ok: "fd (Some v) = None \<or> (0 \<le> v \<and> v < int (length fs))" by simp
  from seek_in_range(1) [OF sf assms(5) ok assms(6)] show ?thesis .
qed

lemma update_step_range:
  assumes "update b = Inr (r, b')" and "in_range fs b"
  shows "if r \<and> \<not> looped b \<and> frameIndex b + 1 = int (length fs)
         then frameIndex b' = int (length fs) \<and> \<not> isPlaying b' \<and> isFinished b' \<and>
              frames b' = Some fs
         else in_range fs b'"
  using assms by (cases rule: update_cases) (auto simp add: in_range_def)

lemma new_shows_cursor:
  "fs \<noteq> [] \<Longrightarrow> shows_cursor fd fs (new_Animation g p fd nm fs dl lp)"
  by (simp add: shows_cursor_def in_range_def new_Animation_def)

lemma update_shows_cursor:
  assumes "update a = Inr (r, a')" and "shows_cursor fd fs a"
  shows "shows_cursor fd fs a'"
  using assms(1)
proof (cases rule: update_cases)
  case noop
  with assms(2) show ?thesis by simp
next
  case (advance g fs' fd')
  with assms(2) show ?thesis
    by (auto simp add: shows_cursor_def in_range_def past_end_def)
next
  case (loop g fs' fd' p)
  with assms(2) show ?thesis
    by (auto simp add: shows_cursor_def in_range_def past_end_def)
next
  case (complete g fs' p)
  from assms(2) complete(2) have r: "in_range fs a"
    and c: "currentFrame a = fd (array_get fs (frameIndex a))" and t: "frameData a = Some fd"
    by (auto simp add: shows_cursor_def past_end_def)
  from r complete(5) have same: "fs' = fs" by (simp add: in_range_def)
  with complete(7) have i: "frameIndex a = int (length fs) - 1" by simp
  from complete(9) same r i c t show ?thesis
    by (simp add: shows_cursor_def past_end_def in_range_def)
qed

lemma perform_shows_cursor:
  assumes "perform c a = Inr a'" and "\<not> is_seek c" and "fs \<noteq> []" and "shows_cursor fd fs a"
  shows "shows_cursor fd fs a'"
proof -
  from assms(4) have fd: "frameData a = Some fd" and fs: "frames a = Some fs"
    by (auto simp add: shows_cursor_def in_range_def past_end_def)
  show ?thesis
  proof (cases c)
    case (Play frameRate loop)
    with assms(1) have pl: "play frameRate loop a = Inr a'" by simp
    from play_Inr_live [OF pl] fd fs obtain g p where
      live: "game a = Some g" "frames a = Some fs" "frameData a = Some fd" "parent a = Some p"
      by auto
    from pl assms(3) show ?thesis
      by (auto simp add: play_live [OF live] shows_cursor_def in_range_def live)
  next
    case Restart
    with assms(1) have rs: "restart a = Inr a'" by simp
    from restart_Inr_live [OF rs] fd fs obtain g where
      live: "game a = Some g" "frames a = Some fs" "frameData a = Some fd"
      by auto
    from rs assms(3) show ?thesis
      by (auto simp add: restart_live [OF live] shows_cursor_def in_range_def live)
  next
    case Stop
    with assms(1) assms(4) show ?thesis
      by (auto simp add: stop_def shows_cursor_def in_range_def past_end_def)
  next
    case Update
    with assms(1) obtain r where upd: "update a = Inr (r, a')"
      by (auto split: sum.splits)
    from update_shows_cursor [OF upd assms(4)] show ?thesis .
  next
    case (SetFrame v)
    with assms(2) show ?thesis by simp
  next
    case (Tick t)
    with assms(1) assms(4) show ?thesis
      by (auto simp add: clock_at_def shows_cursor_def in_range_def past_end_def)
  qed
qed

lemma run_shows_cursor:
  assumes "fs \<noteq> []"
  shows "run cs a = Inr a' \<Longrightarrow> list_all (\<lambda>c. \<not> is_seek c) cs \<Longrightarrow>
         shows_cursor fd fs a \<Longrightarrow> shows_cursor fd fs a'"
proof (induction cs arbitrary: a)
  case Nil
  then show ?case by simp
next
  case (Cons c cs)
  from Cons.prems(1) obtain b where b: "perform c a = Inr b" and rest: "run cs b = Inr a'"
    by (auto split: sum.splits)
  from Cons.prems(2) have c: "\<not> is_seek c" and cs: "list_all (\<lambda>c. \<not> is_seek c) cs"
    by simp_all
  from perform_shows_cursor [OF b c assms Cons.prems(3)] have "shows_cursor fd fs b" .
  from Cons.IH [OF rest cs this] show ?case .
qed

subsection \<open>The tick\<close>

text \<open>
  Claim C1, as amended. Take a live instance (none of its four references is
  \<^verbatim>\<open>null\<close>). When it is not playing, \<^verbatim>\<open>update()\<close> returns false and
  changes nothing. When it is playing and the clock is below
  \<^verbatim>\<open>_timeNextFrame\<close>, \<^verbatim>\<open>update()\<close> returns false and changes nothing. When
  it is playing and the clock has reached \<^verbatim>\<open>_timeNextFrame\<close>, \<^verbatim>\<open>update()\<close>
  returns true and the cursor goes up by exactly one, unless the instance is
  looped and the cursor was at the last position, where the cursor goes to 0.
  A \<^verbatim>\<open>play()\<close> at clock value \<open>t0\<close> leaves the instance playing with
  the cursor at 0 and \<^verbatim>\<open>_timeNextFrame\<close> at \<open>t0\<close> plus the delay.
\<close>

theorem update_timing:
  assumes "game a = Some g" and "parent a = Some p" and "frames a = Some fs"
    and "frameData a = Some fd"
  shows "(\<not> isPlaying a \<longrightarrow> update a = Inr (False, a)) \<and>
         (isPlaying a \<and> num_lt (now (time g)) (to_number (timeNextFrame a)) \<longrightarrow>
            update a = Inr (False, a)) \<and>
         (isPlaying a \<and> num_ge (now (time g)) (to_number (timeNextFrame a)) \<longrightarrow>
            (\<exists>a'. update a = Inr (True, a') \<and>
                  frameIndex a' =
                    (if looped a \<and> frameIndex a + 1 = int (length fs) then 0
                     else frameIndex a + 1))) \<and>
         (\<forall>a1. play rate loop a = Inr a1 \<longrightarrow>
            isPlaying a1 \<and> frameIndex a1 = 0 \<and> game a1 = Some g \<and>
            timeLastFrame a1 = Some (now (time g)) \<and>
            timeNextFrame a1 = Some (num_add (now (time g)) (delay a1)))"
proof -
  have idle: "\<not> isPlaying a \<longrightarrow> update a = Inr (False, a)"
    by (simp add: update_idle)
  have early: "isPlaying a \<and> num_lt (now (time g)) (to_number (timeNextFrame a)) \<longrightarrow>
      update a = Inr (False, a)"
    using assms(1) by (simp add: update_early num_lt_not_ge)
  have due: "\<exists>a'. update a = Inr (True, a') \<and>
          frameIndex a' =
            (if looped a \<and> frameIndex a + 1 = int (length fs) then 0 else frameIndex a + 1)"
    if h: "isPlaying a \<and> num_ge (now (time g)) (to_number (timeNextFrame a))"
  proof (cases "frameIndex a + 1 = int (length fs)")
    case False
    with h assms show ?thesis by (simp add: update_advance)
  next
    case last: True
    show ?thesis
    proof (cases "looped a")
      case True
      with h assms last show ?thesis by (simp add: update_loop)
    next
      case False
      with h assms last show ?thesis by (simp add: update_complete)
    qed
  qed
  have started: "isPlaying a1 \<and> frameIndex a1 = 0 \<and> game a1 = Some g \<and>
            timeLastFrame a1 = Some (now (time g)) \<and>
            timeNextFrame a1 = Some (num_add (now (time g)) (delay a1))"
    if "play rate loop a = Inr a1" for a1
  proof -
    from that have "a1 = a\<lparr>delay := (case rate of None \<Rightarrow> delay a | Some r \<Rightarrow> num_div (Fin 1000) r),
            looped := (case loop of None \<Rightarrow> looped a | Some l \<Rightarrow> l),
            isPlaying := True, isFinished := False,
            timeLastFrame := Some (now (time g)),
            timeNextFrame := Some (num_add (now (time g))
               (case rate of None \<Rightarrow> delay a | Some r \<Rightarrow> num_div (Fin 1000) r)),
            frameIndex := 0,
            currentFrame := fd (array_get fs 0),
            parent := Some (p\<lparr>onAnimationStart := onAnimationStart p @ [name a]\<rparr>)\<rparr>"
      using play_live [OF assms(1) assms(3) assms(4) assms(2), of rate loop] by simp
    then show ?thesis using assms(1) by simp
  qed
  show ?thesis using idle early due started by blast
qed

text \<open>
  The claim as first stated fails on a looped animation of one frame: after
  \<^verbatim>\<open>play()\<close> at 0 with a delay of 100, \<^verbatim>\<open>update()\<close> at 100 returns true
  and the cursor is 0 again, not 1.
\<close>

theorem update_timing_counterexample:
  "(case play None None (demo [0] True) of
      Inl e \<Rightarrow> False
    | Inr a \<Rightarrow>
        isPlaying a \<and> frameIndex a = 0 \<and> timeNextFrame a = Some (Fin 100) \<and>
        (case update (clock_at (Fin 100) a) of
           Inl e \<Rightarrow> False
         | Inr (r, a') \<Rightarrow> r \<and> frameIndex a' = 0 \<and> frameIndex a' \<noteq> frameIndex a + 1))"
  by (simp add: demo_defs play_def update_def resolveFrame_def Let_def)

text \<open>The four parts of the amended claim on the two-frame sample.\<close>

theorem update_timing_witness:
  "update (demo [0, 1] False) = Inr (False, demo [0, 1] False) \<and>
   update (clock_at (Fin 99) (demo_playing [0, 1] False)) =
     Inr (False, clock_at (Fin 99) (demo_playing [0, 1] False)) \<and>
   (\<exists>a'. update (clock_at (Fin 100) (demo_playing [0, 1] False)) = Inr (True, a') \<and>
         frameIndex a' = 1) \<and>
   (\<exists>a1. play None None (demo [0, 1] False) = Inr a1 \<and> isPlaying a1 \<and> frameIndex a1 = 0 \<and>
         timeNextFrame a1 = Some (Fin 100))"
proof -
  have idle: "update (demo [0, 1] False) = Inr (False, demo [0, 1] False)"
    using update_timing [of "demo [0, 1] False" demo_game demo_sprite "[0, 1]" demo_table]
    by (simp add: demo_def new_Animation_def)
  have early: "update (clock_at (Fin 99) (demo_playing [0, 1] False)) =
     Inr (False, clock_at (Fin 99) (demo_playing [0, 1] False))"
    using update_timing [of "clock_at (Fin 99) (demo_playing [0, 1] False)"
        "\<lparr>time = \<lparr>now = Fin 99\<rparr>\<rparr>" "demo_sprite\<lparr>onAnimationStart := [''walk'']\<rparr>"
        "[0, 1]" demo_table]
    by (simp add: demo_playing_def demo_defs)
  have due: "\<exists>a'. update (clock_at (Fin 100) (demo_playing [0, 1] False)) = Inr (True, a') \<and>
         frameIndex a' = 1"
    using update_timing [of "clock_at (Fin 100) (demo_playing [0, 1] False)"
        "\<lparr>time = \<lparr>now = Fin 100\<rparr>\<rparr>" "demo_sprite\<lparr>onAnimationStart := [''walk'']\<rparr>"
        "[0, 1]" demo_table]
    by (simp add: demo_playing_def demo_defs)
  have started: "\<exists>a1. play None None (demo [0, 1] False) = Inr a1 \<and> isPlaying a1 \<and>
         frameIndex a1 = 0 \<and> timeNextFrame a1 = Some (Fin 100)"
    using update_timing [of "demo [0, 1] False" demo_game demo_sprite "[0, 1]" demo_table
        None None] play_demo [of "[0, 1]" False]
    by (simp add: demo_playing_def demo_defs)
  show ?thesis
    by (rule conjI [OF idle conjI [OF early conjI [OF due started]]])
qed

subsection \<open>Completion\<close>

text \<open>
  Claim C3, as amended. On a playing instance that is not looped and whose
  cursor is at the last position of the sequence, the \<^verbatim>\<open>update()\<close> that is
  due returns true, sets \<^verbatim>\<open>isPlaying\<close> to false and \<^verbatim>\<open>isFinished\<close> to true,
  and dispatches \<^verbatim>\<open>onAnimationComplete\<close> once: the parent is the one the call
  found, with one more entry on that signal and nothing else changed.
  \<^verbatim>\<open>currentFrame\<close> is not assigned and keeps the value it had. When the
  instance was constructed with a sequence that is not empty and has been
  driven by \<^verbatim>\<open>play\<close>, \<^verbatim>\<open>restart\<close>, \<^verbatim>\<open>stop\<close> and \<^verbatim>\<open>update\<close> only, that
  value is the frame the table gives for the last key of the sequence; so it
  is whenever \<^verbatim>\<open>currentFrame\<close> was the frame of the cursor's key before the
  call.
\<close>

theorem nonlooped_completion:
  assumes "isPlaying a" and "\<not> looped a"
    and "game a = Some g" and "frames a = Some fs" and "parent a = Some p"
    and "frameIndex a + 1 = int (length fs)"
    and "num_ge (now (time g)) (to_number (timeNextFrame a))"
  shows "\<exists>a'. update a = Inr (True, a') \<and>
           \<not> isPlaying a' \<and> isFinished a' \<and>
           parent a' = Some (p\<lparr>onAnimationComplete := onAnimationComplete p @ [name a]\<rparr>) \<and>
           currentFrame a' = currentFrame a \<and>
           (fs \<noteq> [] \<and> list_all (\<lambda>c. \<not> is_seek c) cs \<and>
            run cs (new_Animation g0 p0 fd nm fs dl lp) = Inr a \<longrightarrow>
              currentFrame a' = fd (Some (last fs))) \<and>
           (\<forall>fd'. 0 \<le> frameIndex a \<and> frameData a = Some fd' \<and>
                  currentFrame a = fd' (array_get fs (frameIndex a)) \<longrightarrow>
                  currentFrame a' = fd' (Some (last fs)))"
proof -
  have i: "frameIndex a = int (length fs) - 1"
    using assms(6) by simp
  have last_key: "array_get fs (int (length fs) - 1) = Some (last fs)" if ne: "fs \<noteq> []"
  proof -
    from ne have "nat (int (length fs) - 1) = length fs - 1" by simp
    moreover from ne have "0 \<le> int (length fs) - 1"
      by (cases fs) simp_all
    ultimately show ?thesis
      using ne by (simp add: array_get_def last_conv_nth)
  qed
  have shown: "currentFrame a = fd (Some (last fs))"
    if ne: "fs \<noteq> []" and calls: "list_all (\<lambda>c. \<not> is_seek c) cs"
      and reach: "run cs (new_Animation g0 p0 fd nm fs dl lp) = Inr a"
  proof -
    from run_shows_cursor [OF ne reach calls new_shows_cursor [OF ne]]
    have "shows_cursor fd fs a" .
    with assms(1) have "currentFrame a = fd (array_get fs (frameIndex a))"
      by (auto simp add: shows_cursor_def past_end_def)
    with i last_key [OF ne] show ?thesis by simp
  qed
  have kept: "currentFrame a = fd' (Some (last fs))"
    if "0 \<le> frameIndex a" "frameData a = Some fd'"
      "currentFrame a = fd' (array_get fs (frameIndex a))" for fd'
  proof -
    from that(1) i have "fs \<noteq> []" by auto
    from last_key [OF this] i that(3) show ?thesis by simp
  qed
  from update_complete [OF assms(1) assms(3) assms(7) assms(4) assms(5) assms(6) assms(2)]
  obtain a' where u: "update a = Inr (True, a')" and f: "\<not> isPlaying a'" "isFinished a'"
    and q: "parent a' = Some (p\<lparr>onAnimationComplete := onAnimationComplete p @ [name a]\<rparr>)"
    and c: "currentFrame a' = currentFrame a"
    by simp
  from shown c have s1: "fs \<noteq> [] \<and> list_all (\<lambda>c. \<not> is_seek c) cs \<and>
            run cs (new_Animation g0 p0 fd nm fs dl lp) = Inr a \<longrightarrow>
              currentFrame a' = fd (Some (last fs))"
    by simp
  from kept c have s2: "\<forall>fd'. 0 \<le> frameIndex a \<and> frameData a = Some fd' \<and>
                  currentFrame a = fd' (array_get fs (frameIndex a)) \<longrightarrow>
                  currentFrame a' = fd' (Some (last fs))"
    by simp
  from u f q c s1 s2 show ?thesis
    by (intro exI [of _ a'] conjI)
qed

text \<open>
  The claim as first stated has \<^verbatim>\<open>currentFrame\<close> reflect the last frame of
  the sequence after every completion. On the sample with the keys 7 and 0,
  not looped, \<^verbatim>\<open>play()\<close> at 0, the frame setter with the key 1 and
  \<^verbatim>\<open>update()\<close> at 100 complete the animation with the frame of key 1 in
  \<^verbatim>\<open>currentFrame\<close>; the last key of the sequence is 0.
\<close>

theorem nonlooped_completion_counterexample:
  "(case run [Play None None, SetFrame 1, Tick (Fin 100)] (demo [7, 0] False) of
      Inl e \<Rightarrow> False
    | Inr a \<Rightarrow>
        isPlaying a \<and> \<not> looped a \<and> frameIndex a + 1 = int (length [7, 0::int]) \<and>
        (case update a of
           Inl e \<Rightarrow> False
         | Inr (r, a') \<Rightarrow>
             r \<and> \<not> isPlaying a' \<and> isFinished a' \<and>
             currentFrame a' = Some \<lparr>index = 1, width = 64, height = 48\<rparr> \<and>
             demo_table (Some (last [7, 0])) = Some \<lparr>index = 0, width = 32, height = 48\<rparr> \<and>
             currentFrame a' \<noteq> demo_table (Some (last [7, 0]))))"
  by (simp add: demo_defs play_def update_def onComplete_def resolveFrame_def set_frame_def
      Let_def)

text \<open>
  The sample with the keys 7 and 1, not looped, played at 0 and advanced at
  100: the \<^verbatim>\<open>update()\<close> at 200 completes it on the frame of key 1.
\<close>

theorem nonlooped_completion_witness:
  "\<exists>a a'. run [Play None None, Tick (Fin 100), Update, Tick (Fin 200)] (demo [7, 1] False) = Inr a \<and>
        currentFrame a = Some \<lparr>index = 1, width = 64, height = 48\<rparr> \<and>
        update a = Inr (True, a') \<and>
        \<not> isPlaying a' \<and> isFinished a' \<and>
        parent a' = Some (demo_sprite\<lparr>onAnimationStart := [''walk''],
                                        onAnimationComplete := [''walk'']\<rparr>) \<and>
        currentFrame a' = Some \<lparr>index = 1, width = 64, height = 48\<rparr>"
proof -
  let ?cs = "[Play None None, Tick (Fin 100), Update, Tick (Fin 200)]"
  let ?fs = "[7, 1::int]"
  let ?p = "demo_sprite\<lparr>onAnimationStart := [''walk'']\<rparr>"
  let ?g = "\<lparr>time = \<lparr>now = Fin 200\<rparr>\<rparr>"
  obtain a where a: "run ?cs (demo ?fs False) = Inr a"
    and h1: "isPlaying a" and h2: "\<not> looped a" and h3: "game a = Some ?g"
    and h4: "frames a = Some ?fs" and h5: "parent a = Some ?p"
    and h6: "frameIndex a + 1 = int (length ?fs)"
    and h7: "num_ge (now (time ?g)) (to_number (timeNextFrame a))"
    and n: "name a = ''walk''" and t: "frameData a = Some demo_table"
    and c: "currentFrame a = Some \<lparr>index = 1, width = 64, height = 48\<rparr>"
    by (simp add: demo_defs play_def update_def resolveFrame_def Let_def)
  from a have reach: "run ?cs (new_Animation demo_game demo_sprite demo_table ''walk'' ?fs
      (Fin 10) False) = Inr a"
    by (simp only: demo_def)
  have ne: "?fs \<noteq> []" and calls: "list_all (\<lambda>c. \<not> is_seek c) ?cs"
    by simp_all
  from nonlooped_completion [OF h1 h2 h3 h4 h5 h6 h7, of ?cs demo_game demo_sprite
      demo_table "''walk''" "Fin 10" False]
  obtain a' where u: "update a = Inr (True, a')" and f: "\<not> isPlaying a'" "isFinished a'"
    and q: "parent a' = Some (?p\<lparr>onAnimationComplete := onAnimationComplete ?p @ [name a]\<rparr>)"
    and s: "?fs \<noteq> [] \<and> list_all (\<lambda>c. \<not> is_seek c) ?cs \<and>
        run ?cs (new_Animation demo_game demo_sprite demo_table ''walk'' ?fs (Fin 10) False) =
          Inr a \<longrightarrow>
        currentFrame a' = demo_table (Some (last ?fs))"
    and k: "\<forall>fd'. 0 \<le> frameIndex a \<and> frameData a = Some fd' \<and>
        currentFrame a = fd' (array_get ?fs (frameIndex a)) \<longrightarrow>
        currentFrame a' = fd' (Some (last ?fs))"
    by (elim exE conjE)
  from s ne calls reach have "currentFrame a' = demo_table (Some (last ?fs))"
    by (simp only: simp_thms)
  then have shown: "currentFrame a' = Some \<lparr>index = 1, width = 64, height = 48\<rparr>"
    by (simp add: demo_table_def)
  from h6 c t have pre: "0 \<le> frameIndex a \<and> frameData a = Some demo_table \<and>
      currentFrame a = demo_table (array_get ?fs (frameIndex a))"
    by (simp add: demo_table_def array_get_def)
  from k [rule_format, of demo_table] pre
  have again: "currentFrame a' = demo_table (Some (last ?fs))"
    by (simp only: simp_thms)
  from q n have q': "parent a' = Some (demo_sprite\<lparr>onAnimationStart := [''walk''],
                                        onAnimationComplete := [''walk'']\<rparr>)"
    by (simp add: demo_sprite_def)
  from a c u f q' shown show ?thesis
    by (intro exI [of _ a] exI [of _ a'] conjI)
qed

subsection \<open>The timing fields\<close>

text \<open>
  Claim C4, as amended. Every \<^verbatim>\<open>update()\<close> that returns true sets
  \<^verbatim>\<open>_timeLastFrame\<close> to the clock value and \<^verbatim>\<open>_timeNextFrame\<close> to the clock
  value plus the delay, whichever of the three branches it took: the two
  assignments follow the branching, so the completion branch reaches them too.
  The delay itself is not changed.
\<close>

theorem update_sets_timing:
  assumes "update a = Inr (True, a')"
  shows "\<exists>g. game a = Some g \<and>
           timeLastFrame a' = Some (now (time g)) \<and>
           timeNextFrame a' = Some (num_add (now (time g)) (delay a)) \<and>
           delay a' = delay a"
  using assms by (cases rule: update_cases) simp_all

text \<open>
  The claim as first stated says the completion branch keeps the two timing
  fields. On the one-frame sample, not looped, played at 0 with a delay of
  100, the completing \<^verbatim>\<open>update()\<close> at 250 moves them from 0 and 100 to 250
  and 350.
\<close>

theorem update_sets_timing_counterexample:
  "(case play None None (demo [0] False) of
      Inl e \<Rightarrow> False
    | Inr a \<Rightarrow>
        timeLastFrame a = Some (Fin 0) \<and> timeNextFrame a = Some (Fin 100) \<and>
        (case update (clock_at (Fin 250) a) of
           Inl e \<Rightarrow> False
         | Inr (r, a') \<Rightarrow>
             r \<and> \<not> isPlaying a' \<and> isFinished a' \<and>
             timeLastFrame a' = Some (Fin 250) \<and> timeNextFrame a' = Some (Fin 350)))"
  by (simp add: demo_defs play_def update_def onComplete_def resolveFrame_def Let_def)

text \<open>The same completing call, read through the theorem.\<close>

theorem update_sets_timing_witness:
  "\<exists>g. game (clock_at (Fin 250) (demo_playing [0] False)) = Some g \<and>
       timeLastFrame
         ((clock_at (Fin 250) (demo_playing [0] False))
            \<lparr>frameIndex := 1, isPlaying := False, isFinished := True,
             parent := Some (demo_sprite\<lparr>onAnimationStart := [''walk''],
                                           onAnimationComplete := [''walk'']\<rparr>),
             timeLastFrame := Some (Fin 250), timeNextFrame := Some (Fin 350)\<rparr>) =
         Some (now (time g)) \<and>
       timeNextFrame
         ((clock_at (Fin 250) (demo_playing [0] False))
            \<lparr>frameIndex := 1, isPlaying := False, isFinished := True,
             parent := Some (demo_sprite\<lparr>onAnimationStart := [''walk''],
                                           onAnimationComplete := [''walk'']\<rparr>),
             timeLastFrame := Some (Fin 250), timeNextFrame := Some (Fin 350)\<rparr>) =
         Some (num_add (now (time g)) (delay (clock_at (Fin 250) (demo_playing [0] False)))) \<and>
       delay
         ((clock_at (Fin 250) (demo_playing [0] False))
            \<lparr>frameIndex := 1, isPlaying := False, isFinished := True,
             parent := Some (demo_sprite\<lparr>onAnimationStart := [''walk''],
                                           onAnimationComplete := [''walk'']\<rparr>),
             timeLastFrame := Some (Fin 250), timeNextFrame := Some (Fin 350)\<rparr>) =
         delay (clock_at (Fin 250) (demo_playing [0] False))"
proof -
  have run: "update (clock_at (Fin 250) (demo_playing [0] False)) =
     Inr (True, (clock_at (Fin 250) (demo_playing [0] False))
        \<lparr>frameIndex := 1, isPlaying := False, isFinished := True,
         parent := Some (demo_sprite\<lparr>onAnimationStart := [''walk''],
                                       onAnimationComplete := [''walk'']\<rparr>),
         timeLastFrame := Some (Fin 250), timeNextFrame := Some (Fin 350)\<rparr>)"
    by (simp add: demo_playing_def demo_defs update_def onComplete_def Let_def)
  show ?thesis by (rule update_sets_timing [OF run])
qed

subsection \<open>Seeking\<close>

text \<open>
  Claim C5. On an instance whose frame table is not \<^verbatim>\<open>null\<close>, the frame
  setter called with a key that the table does not hold sets
  \<^verbatim>\<open>currentFrame\<close> to \<^verbatim>\<open>null\<close> and changes nothing else: the cursor and the
  parent, with its texture size, are as before. Called with a key that the
  table holds, on an instance with a parent, it stores the frame found in
  \<^verbatim>\<open>currentFrame\<close>, sets the cursor to the key and writes the frame's size
  to the parent's texture.
\<close>

theorem set_frame_seek:
  assumes "frameData a = Some fd"
  shows "(fd (Some v) = None \<longrightarrow>
            set_frame v a = Inr (a\<lparr>currentFrame := None\<rparr>) \<and>
            frameIndex (a\<lparr>currentFrame := None\<rparr>) = frameIndex a \<and>
            parent (a\<lparr>currentFrame := None\<rparr>) = parent a) \<and>
         (\<forall>f p. fd (Some v) = Some f \<and> parent a = Some p \<longrightarrow>
            set_frame v a =
              Inr (a\<lparr>currentFrame := Some f,
                      parent := Some (p\<lparr>texture_width := width f, texture_height := height f\<rparr>),
                      frameIndex := v\<rparr>))"
  using assms by (simp add: set_frame_def Let_def)

text \<open>The sample table holds the key 7 and does not hold the key 5.\<close>

theorem set_frame_seek_witness:
  "set_frame 5 (demo [0, 1] False) = Inr ((demo [0, 1] False)\<lparr>currentFrame := None\<rparr>) \<and>
   set_frame 7 (demo [0, 1] False) =
     Inr ((demo [0, 1] False)
            \<lparr>currentFrame := Some \<lparr>index = 7, width = 16, height = 24\<rparr>,
             parent := Some (demo_sprite\<lparr>texture_width := 16, texture_height := 24\<rparr>),
             frameIndex := 7\<rparr>)"
proof -
  have fd: "frameData (demo [0, 1] False) = Some demo_table"
    by (simp add: demo_defs)
  have p: "parent (demo [0, 1] False) = Some demo_sprite"
    by (simp add: demo_defs)
  have absent: "demo_table (Some 5) = None"
    by (simp add: demo_table_def)
  have present: "demo_table (Some 7) = Some \<lparr>index = 7, width = 16, height = 24\<rparr>"
    by (simp add: demo_table_def)
  from set_frame_seek [OF fd, of 5] absent
  have one: "set_frame 5 (demo [0, 1] False) = Inr ((demo [0, 1] False)\<lparr>currentFrame := None\<rparr>)"
    by simp
  from set_frame_seek [OF fd, of 7] present p
  have two: "set_frame 7 (demo [0, 1] False) =
     Inr ((demo [0, 1] False)
            \<lparr>currentFrame := Some \<lparr>index = 7, width = 16, height = 24\<rparr>,
             parent := Some (demo_sprite\<lparr>texture_width := 16, texture_height := 24\<rparr>),
             frameIndex := 7\<rparr>)"
    by simp
  show ?thesis by (rule conjI [OF one two])
qed

subsection \<open>Looping\<close>

text \<open>
  Claim C6. On a playing, looped instance whose cursor is at the last position
  of the sequence, the \<^verbatim>\<open>update()\<close> that is due returns true, puts the cursor
  at 0, resolves \<^verbatim>\<open>currentFrame\<close> from the table for the key at position 0
  (the first key, when the sequence is not empty) and dispatches
  \<^verbatim>\<open>onAnimationLoop\<close> once: the parent is the one the call found with one more
  entry on that signal. And no \<^verbatim>\<open>update()\<close> of a looped instance adds to
  \<^verbatim>\<open>onAnimationComplete\<close>.
\<close>

theorem looped_wraparound:
  "(isPlaying a \<and> looped a \<and> game a = Some g \<and> frames a = Some fs \<and>
    frameData a = Some fd \<and> parent a = Some p \<and>
    frameIndex a + 1 = int (length fs) \<and>
    num_ge (now (time g)) (to_number (timeNextFrame a)) \<longrightarrow>
      (\<exists>a'. update a = Inr (True, a') \<and> frameIndex a' = 0 \<and>
            currentFrame a' = fd (array_get fs 0) \<and>
            (fs \<noteq> [] \<longrightarrow> currentFrame a' = fd (Some (hd fs))) \<and>
            parent a' = Some (p\<lparr>onAnimationLoop := onAnimationLoop p @ [name a]\<rparr>))) \<and>
   (looped a \<and> update a = Inr (r, b) \<longrightarrow>
      map_option onAnimationComplete (parent b) = map_option onAnimationComplete (parent a))"
proof -
  have first: "fs \<noteq> [] \<Longrightarrow> array_get fs 0 = Some (hd fs)"
    by (cases fs) (simp_all add: array_get_def)
  have wrap: "\<exists>a'. update a = Inr (True, a') \<and> frameIndex a' = 0 \<and>
            currentFrame a' = fd (array_get fs 0) \<and>
            (fs \<noteq> [] \<longrightarrow> currentFrame a' = fd (Some (hd fs))) \<and>
            parent a' = Some (p\<lparr>onAnimationLoop := onAnimationLoop p @ [name a]\<rparr>)"
    if "isPlaying a" "looped a" "game a = Some g" "frames a = Some fs"
      "frameData a = Some fd" "parent a = Some p" "frameIndex a + 1 = int (length fs)"
      "num_ge (now (time g)) (to_number (timeNextFrame a))"
    using update_loop [OF that(1) that(3) that(8) that(4) that(5) that(6) that(7) that(2)] first
    by simp
  have quiet: "map_option onAnimationComplete (parent b) = map_option onAnimationComplete (parent a)"
    if "looped a" and "update a = Inr (r, b)"
    using that(2) that(1) by (cases rule: update_cases) simp_all
  show ?thesis using wrap quiet by blast
qed

text \<open>The looped sample of one frame with key 7, played at 0, at clock 100.\<close>

theorem looped_wraparound_witness:
  "\<exists>a'. update (clock_at (Fin 100) (demo_playing [7] True)) = Inr (True, a') \<and>
        frameIndex a' = 0 \<and>
        currentFrame a' = Some \<lparr>index = 7, width = 16, height = 24\<rparr> \<and>
        parent a' = Some (demo_sprite\<lparr>onAnimationStart := [''walk''],
                                        onAnimationLoop := [''walk'']\<rparr>) \<and>
        map_option onAnimationComplete (parent a') = Some []"
proof -
  let ?a = "clock_at (Fin 100) (demo_playing [7] True)"
  let ?p = "demo_sprite\<lparr>onAnimationStart := [''walk'']\<rparr>"
  let ?g = "\<lparr>time = \<lparr>now = Fin 100\<rparr>\<rparr>"
  have h: "isPlaying ?a \<and> looped ?a \<and> game ?a = Some ?g \<and> frames ?a = Some [7] \<and>
      frameData ?a = Some demo_table \<and> parent ?a = Some ?p \<and>
      frameIndex ?a + 1 = int (length [7::int]) \<and>
      num_ge (now (time ?g)) (to_number (timeNextFrame ?a))"
    by (simp add: demo_playing_def demo_defs)
  have inst: "(isPlaying ?a \<and> looped ?a \<and> game ?a = Some ?g \<and> frames ?a = Some [7] \<and>
      frameData ?a = Some demo_table \<and> parent ?a = Some ?p \<and>
      frameIndex ?a + 1 = int (length [7::int]) \<and>
      num_ge (now (time ?g)) (to_number (timeNextFrame ?a)) \<longrightarrow>
      (\<exists>a'. update ?a = Inr (True, a') \<and> frameIndex a' = 0 \<and>
            currentFrame a' = demo_table (array_get [7] 0) \<and>
            ([7::int] \<noteq> [] \<longrightarrow> currentFrame a' = demo_table (Some (hd [7]))) \<and>
            parent a' = Some (?p\<lparr>onAnimationLoop := onAnimationLoop ?p @ [name ?a]\<rparr>)))"
    and quiet: "\<And>r b. looped ?a \<and> update ?a = Inr (r, b) \<longrightarrow>
      map_option onAnimationComplete (parent b) = map_option onAnimationComplete (parent ?a)"
    using looped_wraparound [of ?a ?g "[7]" demo_table ?p] by blast+
  have ne: "[7::int] \<noteq> []" by simp
  from inst h ne obtain a' where r: "update ?a = Inr (True, a')" "frameIndex a' = 0"
    "currentFrame a' = demo_table (Some (hd [7]))"
    "parent a' = Some (?p\<lparr>onAnimationLoop := onAnimationLoop ?p @ [name ?a]\<rparr>)"
    by blast
  from quiet [of True a'] h r(1)
  have q: "map_option onAnimationComplete (parent a') = map_option onAnimationComplete (parent ?a)"
    by blast
  have e1: "demo_table (Some (hd [7])) = Some \<lparr>index = 7, width = 16, height = 24\<rparr>"
    by (simp add: demo_table_def)
  have e2: "?p\<lparr>onAnimationLoop := onAnimationLoop ?p @ [name ?a]\<rparr> =
      demo_sprite\<lparr>onAnimationStart := [''walk''], onAnimationLoop := [''walk'']\<rparr>"
    by (simp add: demo_playing_def demo_defs)
  have e3: "map_option onAnimationComplete (parent ?a) = Some []"
    by (simp add: demo_playing_def demo_defs)
  from r q e1 e2 e3 show ?thesis by (intro exI [of _ a']) simp
qed

subsection \<open>The parent's texture size\<close>

text \<open>
  Claim C7, as amended. The frame setter, called with a key that the table
  holds on an instance with a parent, writes the width and the height of the
  frame found to the parent's texture. \<^verbatim>\<open>play()\<close> resolves
  \<^verbatim>\<open>currentFrame\<close> and leaves the parent's texture size as it was.
\<close>

theorem texture_size_written:
  "(frameData a = Some fd \<and> fd (Some v) = Some f \<and> parent a = Some p \<longrightarrow>
      (\<exists>a' p'. set_frame v a = Inr a' \<and> parent a' = Some p' \<and>
              texture_width p' = width f \<and> texture_height p' = height f)) \<and>
   (play rate loop a = Inr b \<longrightarrow>
      map_option texture_width (parent b) = map_option texture_width (parent a) \<and>
      map_option texture_height (parent b) = map_option texture_height (parent a))"
proof -
  have seek: "\<exists>a' p'. set_frame v a = Inr a' \<and> parent a' = Some p' \<and>
              texture_width p' = width f \<and> texture_height p' = height f"
    if "frameData a = Some fd" "fd (Some v) = Some f" "parent a = Some p"
    using that by (simp add: set_frame_def Let_def)
  have started: "map_option texture_width (parent b) = map_option texture_width (parent a) \<and>
      map_option texture_height (parent b) = map_option texture_height (parent a)"
    if b: "play rate loop a = Inr b"
  proof -
    from play_Inr_live [OF b] obtain g fs fd' p' where
      live: "game a = Some g" "frames a = Some fs" "frameData a = Some fd'" "parent a = Some p'"
      by blast
    from b show ?thesis
      by (auto simp add: play_live [OF live] live(4))
  qed
  show ?thesis using seek started by blast
qed

text \<open>
  The claim as first stated has \<^verbatim>\<open>play()\<close> write the size too. On the
  one-frame sample with key 7, \<^verbatim>\<open>play()\<close> resolves the frame of 16 by 24 and
  the parent's texture is still 0 by 0.
\<close>

theorem texture_size_written_counterexample:
  "(case play None None (demo [7] False) of
      Inl e \<Rightarrow> False
    | Inr b \<Rightarrow>
        currentFrame b = Some \<lparr>index = 7, width = 16, height = 24\<rparr> \<and>
        map_option texture_width (parent b) = Some 0 \<and>
        map_option texture_height (parent b) = Some 0)"
  by (simp add: demo_defs play_def resolveFrame_def Let_def)

text \<open>The setter with key 7 and \<^verbatim>\<open>play()\<close> on the two-frame sample.\<close>

theorem texture_size_written_witness:
  "(\<exists>a' p'. set_frame 7 (demo [0, 1] False) = Inr a' \<and> parent a' = Some p' \<and>
           texture_width p' = 16 \<and> texture_height p' = 24) \<and>
   map_option texture_width (parent (demo_playing [0, 1] False)) = Some 0 \<and>
   map_option texture_height (parent (demo_playing [0, 1] False)) = Some 0"
proof -
  let ?a = "demo [0, 1] False"
  let ?f = "\<lparr>index = 7, width = 16, height = 24\<rparr>"
  have h: "frameData ?a = Some demo_table \<and> demo_table (Some 7) = Some ?f \<and>
      parent ?a = Some demo_sprite"
    by (simp add: demo_defs)
  have seek: "frameData ?a = Some demo_table \<and> demo_table (Some 7) = Some ?f \<and>
      parent ?a = Some demo_sprite \<longrightarrow>
      (\<exists>a' p'. set_frame 7 ?a = Inr a' \<and> parent a' = Some p' \<and>
              texture_width p' = width ?f \<and> texture_height p' = height ?f)"
    and started: "play None None ?a = Inr (demo_playing [0, 1] False) \<longrightarrow>
      map_option texture_width (parent (demo_playing [0, 1] False)) =
        map_option texture_width (parent ?a) \<and>
      map_option texture_height (parent (demo_playing [0, 1] False)) =
        map_option texture_height (parent ?a)"
    using texture_size_written [of ?a demo_table 7 ?f demo_sprite None None
        "demo_playing [0, 1] False"]
    by blast+
  from seek h have one: "\<exists>a' p'. set_frame 7 ?a = Inr a' \<and> parent a' = Some p' \<and>
           texture_width p' = 16 \<and> texture_height p' = 24"
    by simp
  have before: "map_option texture_width (parent ?a) = Some 0"
    "map_option texture_height (parent ?a) = Some 0"
    by (simp_all add: demo_defs)
  from started play_demo [of "[0, 1]" False] before
  have two: "map_option texture_width (parent (demo_playing [0, 1] False)) = Some 0 \<and>
      map_option texture_height (parent (demo_playing [0, 1] False)) = Some 0"
    by simp
  show ?thesis by (rule conjI [OF one two])
qed

subsection \<open>Restarting\<close>

text \<open>
  Claim C8. For every starting state, \<^verbatim>\<open>play()\<close> without arguments is
  \<^verbatim>\<open>restart()\<close> followed by the dispatch of \<^verbatim>\<open>onAnimationStart\<close>. On a
  live instance both return, \<^verbatim>\<open>restart()\<close> with \<^verbatim>\<open>isPlaying\<close> true,
  \<^verbatim>\<open>isFinished\<close> false, the cursor at 0, \<^verbatim>\<open>currentFrame\<close> the frame the
  table gives for the first key of the sequence (for \<^verbatim>\<open>undefined\<close> when the
  sequence is empty), \<^verbatim>\<open>_timeLastFrame\<close> at the clock value,
  \<^verbatim>\<open>_timeNextFrame\<close> at the clock value plus the delay, and the delay, the
  loop flag and everything else as before; \<^verbatim>\<open>play()\<close> with that same state
  and one more entry on the parent's \<^verbatim>\<open>onAnimationStart\<close>.
\<close>

theorem restart_like_play:
  "play None None a =
     (case restart a of
        Inl e \<Rightarrow> Inl e
      | Inr b \<Rightarrow>
          (case parent b of
             None \<Rightarrow> Inl TypeError
           | Some p \<Rightarrow> Inr (b\<lparr>parent := Some (p\<lparr>onAnimationStart := onAnimationStart p @ [name b]\<rparr>)\<rparr>))) \<and>
   (game a = Some g \<and> frames a = Some fs \<and> frameData a = Some fd \<and> parent a = Some p \<longrightarrow>
      restart a =
        Inr (a\<lparr>isPlaying := True, isFinished := False,
                timeLastFrame := Some (now (time g)),
                timeNextFrame := Some (num_add (now (time g)) (delay a)),
                frameIndex := 0,
                currentFrame := fd (if fs = [] then None else Some (hd fs))\<rparr>) \<and>
      play None None a =
        Inr (a\<lparr>isPlaying := True, isFinished := False,
                timeLastFrame := Some (now (time g)),
                timeNextFrame := Some (num_add (now (time g)) (delay a)),
                frameIndex := 0,
                currentFrame := fd (if fs = [] then None else Some (hd fs)),
                parent := Some (p\<lparr>onAnimationStart := onAnimationStart p @ [name a]\<rparr>)\<rparr>))"
proof -
  have general: "play None None a =
     (case restart a of
        Inl e \<Rightarrow> Inl e
      | Inr b \<Rightarrow>
          (case parent b of
             None \<Rightarrow> Inl TypeError
           | Some p \<Rightarrow> Inr (b\<lparr>parent := Some (p\<lparr>onAnimationStart := onAnimationStart p @ [name b]\<rparr>)\<rparr>)))"
    by (simp add: play_def restart_def Let_def split: option.splits sum.splits)
  have first: "array_get fs 0 = (if fs = [] then None else Some (hd fs))"
    by (cases fs) (simp_all add: array_get_def)
  have live: "restart a =
        Inr (a\<lparr>isPlaying := True, isFinished := False,
                timeLastFrame := Some (now (time g)),
                timeNextFrame := Some (num_add (now (time g)) (delay a)),
                frameIndex := 0,
                currentFrame := fd (if fs = [] then None else Some (hd fs))\<rparr>) \<and>
      play None None a =
        Inr (a\<lparr>isPlaying := True, isFinished := False,
                timeLastFrame := Some (now (time g)),
                timeNextFrame := Some (num_add (now (time g)) (delay a)),
                frameIndex := 0,
                currentFrame := fd (if fs = [] then None else Some (hd fs)),
                parent := Some (p\<lparr>onAnimationStart := onAnimationStart p @ [name a]\<rparr>)\<rparr>)"
    if "game a = Some g" "frames a = Some fs" "frameData a = Some fd" "parent a = Some p"
    using restart_live [OF that(1) that(2) that(3)]
      play_live [OF that(1) that(2) that(3) that(4), of None None] first
    by simp
  show ?thesis using general live by blast
qed

text \<open>
  The looped sample with the keys 7 and 1, played at 0, advanced at 100 to the
  second frame and stopped: at 500 \<^verbatim>\<open>restart()\<close> puts the cursor back to 0
  and the frame of key 7 into \<^verbatim>\<open>currentFrame\<close>, and \<^verbatim>\<open>play()\<close> does the
  same and dispatches.
\<close>

theorem restart_like_play_witness:
  "\<exists>a b. run [Play None None, Tick (Fin 100), Update, Stop, Tick (Fin 500)] (demo [7, 1] True) =
          Inr a \<and>
        frameIndex a = 1 \<and> currentFrame a = Some \<lparr>index = 1, width = 64, height = 48\<rparr> \<and>
        \<not> isPlaying a \<and> isFinished a \<and>
        restart a = Inr b \<and>
        frameIndex b = 0 \<and> currentFrame b = Some \<lparr>index = 7, width = 16, height = 24\<rparr> \<and>
        isPlaying b \<and> \<not> isFinished b \<and>
        timeLastFrame b = Some (Fin 500) \<and> timeNextFrame b = Some (Fin 600) \<and>
        delay b = delay a \<and> looped b = looped a \<and>
        parent b = Some (demo_sprite\<lparr>onAnimationStart := [''walk'']\<rparr>) \<and>
        play None None a =
          Inr (b\<lparr>parent := Some (demo_sprite\<lparr>onAnimationStart := [''walk'', ''walk'']\<rparr>)\<rparr>)"
proof -
  let ?cs = "[Play None None, Tick (Fin 100), Update, Stop, Tick (Fin 500)]"
  let ?fs = "[7, 1::int]"
  let ?p = "demo_sprite\<lparr>onAnimationStart := [''walk'']\<rparr>"
  let ?g = "\<lparr>time = \<lparr>now = Fin 500\<rparr>\<rparr>"
  obtain a where a: "run ?cs (demo ?fs True) = Inr a"
    and h: "game a = Some ?g \<and> frames a = Some ?fs \<and> frameData a = Some demo_table \<and>
        parent a = Some ?p"
    and before: "frameIndex a = 1" "currentFrame a = Some \<lparr>index = 1, width = 64, height = 48\<rparr>"
        "\<not> isPlaying a" "isFinished a"
    and d: "delay a = Fin 100" and n: "name a = ''walk''"
    by (simp add: demo_defs play_def update_def resolveFrame_def stop_def Let_def)
  let ?b = "a\<lparr>isPlaying := True, isFinished := False,
                timeLastFrame := Some (now (time ?g)),
                timeNextFrame := Some (num_add (now (time ?g)) (delay a)),
                frameIndex := 0,
                currentFrame := demo_table (if ?fs = [] then None else Some (hd ?fs))\<rparr>"
  let ?b' = "a\<lparr>isPlaying := True, isFinished := False,
                timeLastFrame := Some (now (time ?g)),
                timeNextFrame := Some (num_add (now (time ?g)) (delay a)),
                frameIndex := 0,
                currentFrame := demo_table (if ?fs = [] then None else Some (hd ?fs)),
                parent := Some (?p\<lparr>onAnimationStart := onAnimationStart ?p @ [name a]\<rparr>)\<rparr>"
  from restart_like_play [of a ?g ?fs demo_table ?p]
  have imp: "game a = Some ?g \<and> frames a = Some ?fs \<and> frameData a = Some demo_table \<and>
        parent a = Some ?p \<longrightarrow>
      restart a = Inr ?b \<and> play None None a = Inr ?b'"
    by (elim conjE)
  from imp h have both: "restart a = Inr ?b \<and> play None None a = Inr ?b'"
    by (rule mp)
  from both have rs: "restart a = Inr ?b" by (rule conjunct1)
  from both have pl: "play None None a = Inr ?b'" by (rule conjunct2)
  have b1: "frameIndex ?b = 0"
    and b2: "currentFrame ?b = Some \<lparr>index = 7, width = 16, height = 24\<rparr>"
    and b3: "isPlaying ?b" and b4: "\<not> isFinished ?b"
    and b5: "timeLastFrame ?b = Some (Fin 500)"
    and b7: "delay ?b = delay a" and b8: "looped ?b = looped a"
    by (simp_all add: demo_table_def)
  from d have b6: "timeNextFrame ?b = Some (Fin 600)" by simp
  from h have b9: "parent ?b = Some ?p" by simp
  from pl n have pl': "play None None a =
      Inr (?b\<lparr>parent := Some (demo_sprite\<lparr>onAnimationStart := [''walk'', ''walk'']\<rparr>)\<rparr>)"
    by (simp add: demo_sprite_def)
  from a before rs b1 b2 b3 b4 b5 b6 b7 b8 b9 pl' show ?thesis
    by (intro exI [of _ a] exI [of _ ?b] conjI)
qed

subsection \<open>Stopping\<close>

text \<open>
  Claim C9. \<^verbatim>\<open>stop()\<close> sets \<^verbatim>\<open>isPlaying\<close> to false and \<^verbatim>\<open>isFinished\<close> to
  true and changes nothing else, so the parent's signals receive nothing; a
  second \<^verbatim>\<open>stop()\<close> changes nothing.
\<close>

theorem stop_idempotent:
  "stop a = a\<lparr>isPlaying := False, isFinished := True\<rparr> \<and>
   isPlaying (stop a) = False \<and> isFinished (stop a) = True \<and>
   parent (stop a) = parent a \<and>
   stop (stop a) = stop a"
  by (simp add: stop_def)

subsection \<open>Destroying\<close>

text \<open>
  Claim C10. \<^verbatim>\<open>destroy()\<close> sets \<^verbatim>\<open>game\<close>, \<^verbatim>\<open>_parent\<close>, \<^verbatim>\<open>_frames\<close>,
  \<^verbatim>\<open>_frameData\<close> and \<^verbatim>\<open>currentFrame\<close> to \<^verbatim>\<open>null\<close> and \<^verbatim>\<open>isPlaying\<close> to
  false. \<^verbatim>\<open>isFinished\<close>, the cursor, the delay, the loop flag, the two timing
  fields and the name keep their values.
\<close>

theorem destroy_effect:
  "game (destroy a) = None \<and> parent (destroy a) = None \<and> frames (destroy a) = None \<and>
   frameData (destroy a) = None \<and> currentFrame (destroy a) = None \<and>
   isPlaying (destroy a) = False \<and>
   isFinished (destroy a) = isFinished a \<and> frameIndex (destroy a) = frameIndex a \<and>
   delay (destroy a) = delay a \<and> looped (destroy a) = looped a \<and>
   timeLastFrame (destroy a) = timeLastFrame a \<and>
   timeNextFrame (destroy a) = timeNextFrame a \<and>
   name (destroy a) = name a"
  by (simp add: destroy_def)

subsection \<open>The range of the cursor\<close>

text \<open>
  Claim C2, as amended. Take an instance constructed with a sequence that is
  not empty and a client that calls \<^verbatim>\<open>play\<close>, \<^verbatim>\<open>restart\<close>, \<^verbatim>\<open>stop\<close>,
  \<^verbatim>\<open>update\<close> and the frame setter in any order, the clock moving in between,
  where every key handed to the setter is either absent from the frame table
  or a position of the sequence. After every run that returns, the sequence
  is the one the instance was constructed with and the cursor is at least 0
  and at most the length of the sequence; it equals the length only on an
  instance that is finished and not playing. Every such call other than
  \<^verbatim>\<open>update\<close> takes a cursor inside the sequence to a cursor inside the
  sequence. So does \<^verbatim>\<open>update()\<close>, except when it returns true on an instance
  that is not looped with the cursor at the last position: that call, which
  does return when it is due, leaves the cursor at the length of the sequence
  on an instance that is finished and not playing. The frame setter sets the
  cursor to the key it was given whenever the table holds the key, and leaves
  it alone otherwise. Construction, \<^verbatim>\<open>play()\<close> and \<^verbatim>\<open>restart()\<close> put the
  cursor at 0, inside the sequence.
\<close>

theorem cursor_range:
  assumes "fs \<noteq> []" and "list_all (seek_ok fd fs) cs"
    and "run cs (new_Animation g p fd nm fs dl lp) = Inr a"
  shows "frames a = Some fs \<and> 0 \<le> frameIndex a \<and> frameIndex a \<le> int (length fs) \<and>
         (frameIndex a = int (length fs) \<longrightarrow> \<not> isPlaying a \<and> isFinished a) \<and>
         (\<forall>c b b'. in_range fs b \<and> frameData b = Some fd \<and> seek_ok fd fs c \<and> c \<noteq> Update \<and>
            perform c b = Inr b' \<longrightarrow> in_range fs b') \<and>
         (\<forall>b r b'. in_range fs b \<and> update b = Inr (r, b') \<longrightarrow>
            (if r \<and> \<not> looped b \<and> frameIndex b + 1 = int (length fs)
             then frameIndex b' = int (length fs) \<and> \<not> isPlaying b' \<and> isFinished b' \<and>
                  frames b' = Some fs
             else in_range fs b')) \<and>
         (\<forall>b g' p'. in_range fs b \<and> isPlaying b \<and> \<not> looped b \<and>
            frameIndex b + 1 = int (length fs) \<and> game b = Some g' \<and> parent b = Some p' \<and>
            num_ge (now (time g')) (to_number (timeNextFrame b)) \<longrightarrow>
            (\<exists>b'. update b = Inr (True, b') \<and> frameIndex b' = int (length fs))) \<and>
         (\<forall>v b b'. set_frame v b = Inr b' \<longrightarrow>
            frameIndex b' = (if currentFrame b' = None then frameIndex b else v)) \<and>
         in_range fs (new_Animation g p fd nm fs dl lp) \<and>
         (\<forall>frameRate loop b b'. frames b = Some fs \<and>
            (play frameRate loop b = Inr b' \<or> restart b = Inr b') \<longrightarrow>
            in_range fs b' \<and> frameIndex b' = 0)"
proof -
  have start: "in_range fs (new_Animation g p fd nm fs dl lp) \<or>
      past_end fs (new_Animation g p fd nm fs dl lp)"
    using new_in_range [OF assms(1)] ..
  have table: "frameData (new_Animation g p fd nm fs dl lp) = Some fd"
    by (simp add: new_Animation_def)
  from run_keeps_seek [OF assms(1) assms(3) assms(2) table start]
  have inv: "frames a = Some fs \<and> 0 \<le> frameIndex a \<and> frameIndex a \<le> int (length fs) \<and>
         (frameIndex a = int (length fs) \<longrightarrow> \<not> isPlaying a \<and> isFinished a)"
    by (auto simp add: in_range_def past_end_def)
  have step: "\<forall>c b b'. in_range fs b \<and> frameData b = Some fd \<and> seek_ok fd fs c \<and> c \<noteq> Update \<and>
            perform c b = Inr b' \<longrightarrow> in_range fs b'"
    using perform_in_range_seek [OF _ _ _ assms(1)] by blast
  have tick: "\<forall>b r b'. in_range fs b \<and> update b = Inr (r, b') \<longrightarrow>
            (if r \<and> \<not> looped b \<and> frameIndex b + 1 = int (length fs)
             then frameIndex b' = int (length fs) \<and> \<not> isPlaying b' \<and> isFinished b' \<and>
                  frames b' = Some fs
             else in_range fs b')"
    using update_step_range by blast
  have ends: "\<exists>b'. update b = Inr (True, b') \<and> frameIndex b' = int (length fs)"
    if "in_range fs b" "isPlaying b" "\<not> looped b" "frameIndex b + 1 = int (length fs)"
      "game b = Some g'" "parent b = Some p'"
      "num_ge (now (time g')) (to_number (timeNextFrame b))" for b g' p'
  proof -
    from that(1) have fs: "frames b = Some fs" by (simp add: in_range_def)
    from update_complete [OF that(2) that(5) that(7) fs that(6) that(4) that(3)] that(4)
    show ?thesis by simp
  qed
  have seek: "\<forall>v b b'. set_frame v b = Inr b' \<longrightarrow>
            frameIndex b' = (if currentFrame b' = None then frameIndex b else v)"
    using set_frame_cursor by blast
  have reset: "in_range fs b' \<and> frameIndex b' = 0"
    if "frames b = Some fs" "play frameRate loop b = Inr b' \<or> restart b = Inr b'"
    for frameRate loop b b'
    using that(2)
  proof
    assume pl: "play frameRate loop b = Inr b'"
    from play_Inr_live [OF pl] that(1) obtain g' fd' p' where
      live: "game b = Some g'" "frames b = Some fs" "frameData b = Some fd'" "parent b = Some p'"
      by auto
    from pl have "frameIndex b' = 0"
      by (auto simp add: play_live [OF live])
    with play_in_range [OF pl that(1) assms(1)] show ?thesis ..
  next
    assume rs: "restart b = Inr b'"
    from restart_Inr_live [OF rs] that(1) obtain g' fd' where
      live: "game b = Some g'" "frames b = Some fs" "frameData b = Some fd'"
      by auto
    from rs have "frameIndex b' = 0"
      by (auto simp add: restart_live [OF live])
    with restart_in_range [OF rs that(1) assms(1)] show ?thesis ..
  qed
  have made: "in_range fs (new_Animation g p fd nm fs dl lp)"
    by (rule new_in_range [OF assms(1)])
  from inv step tick ends seek made reset show ?thesis by blast
qed

text \<open>
  The claim as first stated keeps the cursor below the length after every
  operation. On the one-frame sample, not looped, \<^verbatim>\<open>play()\<close> at 0 and
  \<^verbatim>\<open>update()\<close> at 100 leave the cursor at 1, the length. And on the sample
  with two frames the setter called with the key 7 leaves the cursor at 7.
\<close>

theorem cursor_range_counterexample:
  "(case run [Play None None, Tick (Fin 100), Update] (demo [7] False) of
      Inl e \<Rightarrow> False
    | Inr a \<Rightarrow> frames a = Some [7] \<and> frameIndex a = 1 \<and> \<not> frameIndex a < int (length [7::int])) \<and>
   (case set_frame 7 (demo [0, 1] False) of
      Inl e \<Rightarrow> False
    | Inr a \<Rightarrow> frames a = Some [0, 1] \<and> frameIndex a = 7 \<and>
        \<not> frameIndex a < int (length [0, 1::int]))"
  by (simp add: demo_defs play_def update_def onComplete_def resolveFrame_def set_frame_def
      Let_def)

text \<open>
  The two-frame sample, not looped: a run with a setter call for the absent
  key 5 and one for the position 1, ending in completion; the setter and an
  \<^verbatim>\<open>update()\<close> that keep the cursor inside; the completing \<^verbatim>\<open>update()\<close>;
  and the setter called with the key 7.
\<close>

theorem cursor_range_witness:
  "(\<exists>a. run [Play None None, SetFrame 5, SetFrame 1, Tick (Fin 100), Update]
          (demo [7, 1] False) = Inr a \<and>
        frames a = Some [7, 1] \<and> frameIndex a = 2 \<and> \<not> isPlaying a \<and> isFinished a) \<and>
   (\<exists>b. perform (SetFrame 1) (demo_playing [7, 1] False) = Inr b \<and> in_range [7, 1] b) \<and>
   (\<exists>b. update (clock_at (Fin 100) (demo_playing [7, 1] False)) = Inr (True, b) \<and>
        in_range [7, 1] b) \<and>
   (\<exists>e b. run [Play None None, Tick (Fin 100), Update, Tick (Fin 200)] (demo [7, 1] False) =
          Inr e \<and> update e = Inr (True, b) \<and> frameIndex b = 2) \<and>
   (\<exists>b. set_frame 7 (demo [7, 1] False) = Inr b \<and> frameIndex b = 7) \<and>
   (\<exists>b. restart (demo [7, 1] False) = Inr b \<and> in_range [7, 1] b \<and> frameIndex b = 0)"
proof -
  let ?cs = "[Play None None, SetFrame 5, SetFrame 1, Tick (Fin 100), Update]"
  let ?fs = "[7, 1::int]"
  let ?p = "demo_sprite\<lparr>onAnimationStart := [''walk'']\<rparr>"
  let ?g = "\<lparr>time = \<lparr>now = Fin 100\<rparr>\<rparr>"
  let ?mid = "clock_at (Fin 100) (demo_playing [7, 1] False)"
  let ?g2 = "\<lparr>time = \<lparr>now = Fin 200\<rparr>\<rparr>"
  have ne: "?fs \<noteq> []" by simp
  have calls: "list_all (seek_ok demo_table ?fs) ?cs"
    by (simp add: demo_table_def)
  obtain a where a: "run ?cs (demo ?fs False) = Inr a" and i: "frameIndex a = 2"
    by (simp add: demo_defs play_def update_def onComplete_def resolveFrame_def set_frame_def
        Let_def)
  from a have a': "run ?cs (new_Animation demo_game demo_sprite demo_table ''walk'' ?fs
      (Fin 10) False) = Inr a"
    by (simp only: demo_def)
  note facts = cursor_range [OF ne calls a']
  from facts have f1: "frames a = Some ?fs"
    by (elim conjE)
  from facts have f2: "frameIndex a = int (length ?fs) \<longrightarrow> \<not> isPlaying a \<and> isFinished a"
    by (elim conjE)
  from facts have f3: "\<forall>c b b'. in_range ?fs b \<and> frameData b = Some demo_table \<and>
        seek_ok demo_table ?fs c \<and> c \<noteq> Update \<and> perform c b = Inr b' \<longrightarrow> in_range ?fs b'"
    by (elim conjE)
  from facts have f4: "\<forall>b r b'. in_range ?fs b \<and> update b = Inr (r, b') \<longrightarrow>
        (if r \<and> \<not> looped b \<and> frameIndex b + 1 = int (length ?fs)
         then frameIndex b' = int (length ?fs) \<and> \<not> isPlaying b' \<and> isFinished b' \<and>
              frames b' = Some ?fs
         else in_range ?fs b')"
    by (elim conjE)
  from facts have f5: "\<forall>b g' p'. in_range ?fs b \<and> isPlaying b \<and> \<not> looped b \<and>
        frameIndex b + 1 = int (length ?fs) \<and> game b = Some g' \<and> parent b = Some p' \<and>
        num_ge (now (time g')) (to_number (timeNextFrame b)) \<longrightarrow>
        (\<exists>b'. update b = Inr (True, b') \<and> frameIndex b' = int (length ?fs))"
    by (elim conjE)
  from facts have f6: "\<forall>v b b'. set_frame v b = Inr b' \<longrightarrow>
        frameIndex b' = (if currentFrame b' = None then frameIndex b else v)"
    by (elim conjE)
  from facts have f7: "\<forall>frameRate loop b b'. frames b = Some ?fs \<and>
        (play frameRate loop b = Inr b' \<or> restart b = Inr b') \<longrightarrow>
        in_range ?fs b' \<and> frameIndex b' = 0"
    by (elim conjE)
  from f1 f2 i have one: "frames a = Some ?fs \<and> frameIndex a = 2 \<and>
      \<not> isPlaying a \<and> isFinished a"
    by simp
  obtain b where b: "perform (SetFrame 1) (demo_playing ?fs False) = Inr b"
    by (simp add: demo_playing_def demo_defs set_frame_def Let_def)
  have r: "in_range ?fs (demo_playing ?fs False)"
    and t: "frameData (demo_playing ?fs False) = Some demo_table"
    by (simp_all add: in_range_def demo_playing_def demo_defs)
  have s: "seek_ok demo_table ?fs (SetFrame 1)" and u: "SetFrame 1 \<noteq> Update"
    by simp_all
  from f3 [rule_format, of "demo_playing ?fs False" "SetFrame 1" b] r t s u b
  have two: "in_range ?fs b"
    by (simp only: simp_thms)
  obtain c where c: "update ?mid = Inr (True, c)"
    by (simp add: demo_playing_def demo_defs update_def resolveFrame_def Let_def)
  have r': "in_range ?fs ?mid" and l: "\<not> looped ?mid"
    and m: "frameIndex ?mid + 1 \<noteq> int (length ?fs)"
    by (simp_all add: in_range_def demo_playing_def demo_defs)
  from f4 [rule_format, of ?mid True c] r' c m
  have three: "in_range ?fs c"
    by simp
  obtain e where e: "run [Play None None, Tick (Fin 100), Update, Tick (Fin 200)]
        (demo ?fs False) = Inr e"
    and h: "in_range ?fs e \<and> isPlaying e \<and> \<not> looped e \<and>
      frameIndex e + 1 = int (length ?fs) \<and> game e = Some ?g2 \<and> parent e = Some ?p \<and>
      num_ge (now (time ?g2)) (to_number (timeNextFrame e))"
    by (simp add: in_range_def demo_defs play_def update_def resolveFrame_def Let_def)
  from f5 [rule_format, of e ?g2 ?p] h
  obtain b2 where "update e = Inr (True, b2)" and "frameIndex b2 = 2"
    by auto
  with e have four: "\<exists>e b. run [Play None None, Tick (Fin 100), Update, Tick (Fin 200)]
        (demo ?fs False) = Inr e \<and> update e = Inr (True, b) \<and> frameIndex b = 2"
    by (intro exI [of _ e] exI [of _ b2] conjI)
  obtain d where d: "set_frame 7 (demo ?fs False) = Inr d" and f: "currentFrame d \<noteq> None"
    by (simp add: demo_defs set_frame_def Let_def)
  from f6 [rule_format, of 7 "demo ?fs False" d] d f have five: "frameIndex d = 7"
    by auto
  from a one have c1: "\<exists>a. run ?cs (demo ?fs False) = Inr a \<and>
        frames a = Some ?fs \<and> frameIndex a = 2 \<and> \<not> isPlaying a \<and> isFinished a"
    by (intro exI [of _ a] conjI) simp_all
  from b two have c2: "\<exists>b. perform (SetFrame 1) (demo_playing ?fs False) = Inr b \<and>
      in_range ?fs b"
    by (intro exI [of _ b] conjI)
  from c three have c3: "\<exists>b. update ?mid = Inr (True, b) \<and> in_range ?fs b"
    by (intro exI [of _ c] conjI)
  from d five have c5: "\<exists>b. set_frame 7 (demo ?fs False) = Inr b \<and> frameIndex b = 7"
    by (intro exI [of _ d] conjI)
  obtain k where k: "restart (demo ?fs False) = Inr k"
    by (simp add: demo_defs restart_def resolveFrame_def Let_def)
  have q: "frames (demo ?fs False) = Some ?fs"
    by (simp add: demo_defs)
  from k have "play None None (demo ?fs False) = Inr k \<or> restart (demo ?fs False) = Inr k" ..
  with f7 [rule_format, of "demo ?fs False" None None k] q
  have "in_range ?fs k \<and> frameIndex k = 0"
    by (simp only: simp_thms)
  with k have c6: "\<exists>b. restart (demo ?fs False) = Inr b \<and> in_range ?fs b \<and> frameIndex b = 0"
    by (intro exI [of _ k] conjI) simp_all
  show ?thesis
    by (rule conjI [OF c1 conjI [OF c2 conjI [OF c3 conjI [OF four conjI [OF c5 c6]]]]])
qed

end
